theory Spec2Isabelle
  imports Main "HOL-Library.Word"
begin

section \<open>Data model\<close>

text \<open>
  The repository is a CUDA buffer handle, \<open>host_shared_ptr<T>\<close>, that owns an array in
  device memory and, lazily, a mirror of it in host memory. The handle stores raw
  pointers, so the model has an explicit store: two heaps (device and host) that map the
  address of every live allocation to its contents. A pointer is an address or \<open>nullptr\<close>
  (\<open>None\<close>). Operations take the handle and the machine and return both, updated.
\<close>

type_synonym ptr = "nat option"

text \<open>
  The integer types of the code: \<open>int\<close> and \<open>unsigned int\<close> are 32-bit words (an \<open>int\<close>
  is read with \<open>sint\<close>, an \<open>unsigned int\<close> with \<open>unat\<close>), \<open>std::size_t\<close> is a 64-bit
  word. Arithmetic on them wraps around.
\<close>

type_synonym c_int = "32 word"
type_synonym c_uint = "32 word"
type_synonym c_size_t = "64 word"

text \<open>The status codes of the CUDA runtime that the code can meet.\<close>

datatype cudaError_t =
  cudaSuccess
  | cudaErrorMemoryAllocation
  | cudaErrorInvalidValue
  | cudaErrorInvalidConfiguration

text \<open>
  How a call can end without returning: the error-checking helper terminates the process
  on a status that is not \<open>cudaSuccess\<close>; \<open>new T[n]\<close> throws \<open>std::bad_alloc\<close>; an access
  through a pointer that is null, dangling or out of range is undefined behaviour.
\<close>

datatype error =
  Terminated cudaError_t
  | BadAlloc
  | UndefinedBehaviour

text \<open>
  The machine: \<open>elem_bytes\<close> is \<open>sizeof(T)\<close>; each heap has its live allocations, the
  bytes still available, the next unused address, the contents that fresh
  (uninitialised) memory happens to hold, and the log of released addresses.
  \<open>dev_stores\<close> logs every element store made by a kernel thread (address, index).
\<close>

record 'a machine =
  elem_bytes :: nat
  dev_mem :: "nat \<rightharpoonup> 'a list"
  dev_avail :: nat
  dev_next :: nat
  dev_stale :: "nat \<Rightarrow> nat \<Rightarrow> 'a"
  dev_freed :: "nat list"
  dev_stores :: "(nat \<times> nat) list"
  host_mem :: "nat \<rightharpoonup> 'a list"
  host_avail :: nat
  host_next :: nat
  host_stale :: "nat \<Rightarrow> nat \<Rightarrow> 'a"
  host_freed :: "nat list"

text \<open>
  \<open>struct host_shared_ptr\<close>: the fields \<open>T* data_\<close>, \<open>T* host_data_\<close>,
  \<open>std::size_t size_\<close> (64 bits) and \<open>int counter_\<close> (32 bits, a plain field of each
  handle) are \<open>hsp_data\<close>, \<open>hsp_host_data\<close>, \<open>hsp_size\<close> and \<open>hsp_counter\<close> here: a name
  cannot end in an underscore.
\<close>

record handle =
  hsp_data :: ptr
  hsp_host_data :: ptr
  hsp_size :: c_size_t
  hsp_counter :: c_int

text \<open>
  Modelled from the spec: \<open>device_buffer<T>\<close> (its header is not among the sources) is
  the non-owning view, a snapshot of the device pointer and the element count taken from
  a handle (\<open>buf_data\<close> for its \<open>data_\<close>, \<open>buf_size\<close> for its \<open>size_\<close>).
\<close>

record device_buffer =
  buf_data :: ptr
  buf_size :: c_size_t

section \<open>The runtime under the handle\<close>

text \<open>
  Modelled from the spec: \<open>cuda_safe_call\<close> and \<open>kernel_check_error\<close> (their header is
  not among the sources) terminate the process on any status but success;
  \<open>kernel_check_error\<close> looks at the status of the most recent launch.
\<close>

definition cuda_safe_call :: "cudaError_t \<Rightarrow> error + unit" where
  "cuda_safe_call err = (if err = cudaSuccess then Inr () else Inl (Terminated err))"

definition kernel_check_error :: "cudaError_t \<Rightarrow> error + unit" where
  "kernel_check_error status = (if status = cudaSuccess then Inr () else Inl (Terminated status))"

text \<open>\<open>sizeof(T) * n\<close> in \<open>std::size_t\<close> arithmetic: the product wraps at \<open>2 ^ 64\<close>.\<close>

definition byte_count :: "nat \<Rightarrow> c_size_t \<Rightarrow> nat" where
  "byte_count sizeof_T n = unat ((word_of_nat sizeof_T :: 64 word) * n)"

text \<open>
  \<open>cudaMalloc\<close>: fails when the device has not that many bytes left; else a fresh
  allocation of the whole elements that fit, with indeterminate contents.
\<close>

definition cudaMalloc :: "nat \<Rightarrow> 'a machine \<Rightarrow> cudaError_t \<times> ptr \<times> 'a machine" where
  "cudaMalloc bytes m =
     (if dev_avail m < bytes then (cudaErrorMemoryAllocation, None, m)
      else let a = dev_next m in
        (cudaSuccess, Some a,
         m\<lparr>dev_mem := (dev_mem m)(a \<mapsto> map (dev_stale m a) [0..<bytes div elem_bytes m]),
           dev_avail := dev_avail m - bytes,
           dev_next := Suc a\<rparr>))"

text \<open>\<open>cudaFree\<close>: a no-op on \<open>nullptr\<close>, an error on a pointer that is not live.\<close>

definition cudaFree :: "ptr \<Rightarrow> 'a machine \<Rightarrow> cudaError_t \<times> 'a machine" where
  "cudaFree p m =
     (case p of
        None \<Rightarrow> (cudaSuccess, m)
      | Some a \<Rightarrow>
          (case dev_mem m a of
             None \<Rightarrow> (cudaErrorInvalidValue, m)
           | Some xs \<Rightarrow>
               (cudaSuccess,
                m\<lparr>dev_mem := (dev_mem m)(a := None),
                  dev_avail := dev_avail m + length xs * elem_bytes m,
                  dev_freed := dev_freed m @ [a]\<rparr>)))"

text \<open>
  \<open>new T[n]\<close>: throws when the request cannot be met; else a fresh host array of \<open>n\<close>
  elements, not initialised. \<open>delete[]\<close> of a pointer that is not live is undefined.
\<close>

definition new_array :: "nat \<Rightarrow> 'a machine \<Rightarrow> error + (ptr \<times> 'a machine)" where
  "new_array n m =
     (if 2 ^ 64 \<le> n * elem_bytes m \<or> host_avail m < n * elem_bytes m then Inl BadAlloc
      else let a = host_next m in
        Inr (Some a,
             m\<lparr>host_mem := (host_mem m)(a \<mapsto> map (host_stale m a) [0..<n]),
               host_avail := host_avail m - n * elem_bytes m,
               host_next := Suc a\<rparr>))"

definition delete_array :: "ptr \<Rightarrow> 'a machine \<Rightarrow> error + 'a machine" where
  "delete_array p m =
     (case p of
        None \<Rightarrow> Inr m
      | Some a \<Rightarrow>
          (case host_mem m a of
             None \<Rightarrow> Inl UndefinedBehaviour
           | Some xs \<Rightarrow>
               Inr (m\<lparr>host_mem := (host_mem m)(a := None),
                      host_avail := host_avail m + length xs * elem_bytes m,
                      host_freed := host_freed m @ [a]\<rparr>)))"

text \<open>
  Reading and writing the first \<open>n\<close> elements behind a pointer. A range of no elements
  touches nothing; any other range needs a live allocation that is long enough.
\<close>

definition read_range :: "(nat \<rightharpoonup> 'a list) \<Rightarrow> ptr \<Rightarrow> nat \<Rightarrow> 'a list option" where
  "read_range mem p n =
     (if n = 0 then Some []
      else case p of
        None \<Rightarrow> None
      | Some a \<Rightarrow>
          (case mem a of
             None \<Rightarrow> None
           | Some xs \<Rightarrow> if n \<le> length xs then Some (take n xs) else None))"

definition write_range ::
  "(nat \<rightharpoonup> 'a list) \<Rightarrow> ptr \<Rightarrow> 'a list \<Rightarrow> (nat \<rightharpoonup> 'a list) option" where
  "write_range mem p vs =
     (if vs = [] then Some mem
      else case p of
        None \<Rightarrow> None
      | Some a \<Rightarrow>
          (case mem a of
             None \<Rightarrow> None
           | Some xs \<Rightarrow>
               if length vs \<le> length xs
               then Some (mem(a \<mapsto> vs @ drop (length vs) xs)) else None))"

text \<open>
  \<open>cudaMemcpy\<close> of \<open>count\<close> bytes, one definition for each direction the code uses: the
  whole elements in \<open>count\<close> bytes are copied. A bad device range is reported as a
  status; a bad host range is undefined behaviour.
\<close>

definition cudaMemcpyDeviceToHost ::
  "ptr \<Rightarrow> ptr \<Rightarrow> nat \<Rightarrow> 'a machine \<Rightarrow> error + (cudaError_t \<times> 'a machine)" where
  "cudaMemcpyDeviceToHost dst src count m =
     (case read_range (dev_mem m) src (count div elem_bytes m) of
        None \<Rightarrow> Inr (cudaErrorInvalidValue, m)
      | Some vs \<Rightarrow>
          (case write_range (host_mem m) dst vs of
             None \<Rightarrow> Inl UndefinedBehaviour
           | Some hm \<Rightarrow> Inr (cudaSuccess, m\<lparr>host_mem := hm\<rparr>)))"

definition cudaMemcpyHostToDevice ::
  "ptr \<Rightarrow> ptr \<Rightarrow> nat \<Rightarrow> 'a machine \<Rightarrow> error + (cudaError_t \<times> 'a machine)" where
  "cudaMemcpyHostToDevice dst src count m =
     (case read_range (host_mem m) src (count div elem_bytes m) of
        None \<Rightarrow> Inl UndefinedBehaviour
      | Some vs \<Rightarrow>
          (case write_range (dev_mem m) dst vs of
             None \<Rightarrow> Inr (cudaErrorInvalidValue, m)
           | Some dm \<Rightarrow> Inr (cudaSuccess, m\<lparr>dev_mem := dm\<rparr>)))"

definition cudaMemcpyDeviceToDevice ::
  "ptr \<Rightarrow> ptr \<Rightarrow> nat \<Rightarrow> 'a machine \<Rightarrow> cudaError_t \<times> 'a machine" where
  "cudaMemcpyDeviceToDevice dst src count m =
     (case read_range (dev_mem m) src (count div elem_bytes m) of
        None \<Rightarrow> (cudaErrorInvalidValue, m)
      | Some vs \<Rightarrow>
          (case write_range (dev_mem m) dst vs of
             None \<Rightarrow> (cudaErrorInvalidValue, m)
           | Some dm \<Rightarrow> (cudaSuccess, m\<lparr>dev_mem := dm\<rparr>)))"

text \<open>
  \<open>std::transform\<close> and \<open>std::copy\<close> over \<open>[first, first + n)\<close> with the parallel
  policy. The function applied is pure here, so the order of application cannot be seen.
\<close>

definition std_transform ::
  "ptr \<Rightarrow> nat \<Rightarrow> ptr \<Rightarrow> ('a \<Rightarrow> 'a) \<Rightarrow> 'a machine \<Rightarrow> error + 'a machine" where
  "std_transform first n out func m =
     (case read_range (host_mem m) first n of
        None \<Rightarrow> Inl UndefinedBehaviour
      | Some vs \<Rightarrow>
          (case write_range (host_mem m) out (map func vs) of
             None \<Rightarrow> Inl UndefinedBehaviour
           | Some hm \<Rightarrow> Inr (m\<lparr>host_mem := hm\<rparr>)))"

definition std_copy :: "ptr \<Rightarrow> nat \<Rightarrow> ptr \<Rightarrow> 'a machine \<Rightarrow> error + 'a machine" where
  "std_copy first n out m =
     (case read_range (host_mem m) first n of
        None \<Rightarrow> Inl UndefinedBehaviour
      | Some vs \<Rightarrow>
          (case write_range (host_mem m) out vs of
             None \<Rightarrow> Inl UndefinedBehaviour
           | Some hm \<Rightarrow> Inr (m\<lparr>host_mem := hm\<rparr>)))"

section \<open>Kernels and launches\<close>

text \<open>
  Modelled from the spec: the indexing operator of \<open>device_buffer\<close> (not among the
  sources) is the element of the view at that index. \<open>buffer[index] = v\<close> in a kernel
  thread is then a store into the device allocation of the view, logged here; outside a
  live allocation it is undefined behaviour.
\<close>

definition store_elem :: "ptr \<Rightarrow> int \<Rightarrow> 'a \<Rightarrow> 'a machine \<Rightarrow> error + 'a machine" where
  "store_elem p i v m =
     (case p of
        None \<Rightarrow> Inl UndefinedBehaviour
      | Some a \<Rightarrow>
          (case dev_mem m a of
             None \<Rightarrow> Inl UndefinedBehaviour
           | Some xs \<Rightarrow>
               if 0 \<le> i \<and> nat i < length xs
               then Inr (m\<lparr>dev_mem := (dev_mem m)(a \<mapsto> xs[nat i := v]),
                          dev_stores := dev_stores m @ [(a, nat i)]\<rparr>)
               else Inl UndefinedBehaviour))"

text \<open>
  \<open>const int index = threadIdx.x + blockIdx.x * blockDim.x\<close>: the coordinates are
  \<open>unsigned int\<close>, the sum wraps at \<open>2 ^ 32\<close> and is then read as an \<open>int\<close>.
\<close>

definition thread_index :: "c_uint \<Rightarrow> c_uint \<Rightarrow> c_uint \<Rightarrow> c_int" where
  "thread_index threadIdx_x blockIdx_x blockDim_x = threadIdx_x + blockIdx_x * blockDim_x"

text \<open>
  \<open>index < buffer.size_\<close> compares an \<open>int\<close> with the element count of the view, which
  has the type of the handle's \<open>size_\<close>: the \<open>int\<close> is converted to the unsigned 64-bit
  type (sign extension) and the comparison is unsigned.
\<close>

definition in_bounds :: "c_int \<Rightarrow> device_buffer \<Rightarrow> bool" where
  "in_bounds index buffer \<longleftrightarrow> (scast index :: 64 word) < buf_size buffer"

text \<open>A thread is given by \<open>(threadIdx.x, blockIdx.x, blockDim.x)\<close>.\<close>

type_synonym thread = "c_uint \<times> c_uint \<times> c_uint"

definition kernel_fill ::
  "device_buffer \<Rightarrow> (unit \<Rightarrow> 'a) \<Rightarrow> thread \<Rightarrow> 'a machine \<Rightarrow> error + 'a machine" where
  "kernel_fill buffer func t m =
     (case t of (threadIdx_x, blockIdx_x, blockDim_x) \<Rightarrow>
        let index = thread_index threadIdx_x blockIdx_x blockDim_x in
        if in_bounds index buffer
        then store_elem (buf_data buffer) (sint index) (func ()) m
        else Inr m)"

text \<open>\<open>kernel\<close> of \<open>to_bench.cu\<close>, on a buffer of \<open>int\<close>: the same guard, the value 0.\<close>

definition kernel ::
  "device_buffer \<Rightarrow> thread \<Rightarrow> c_int machine \<Rightarrow> error + c_int machine" where
  "kernel buffer t m =
     (case t of (threadIdx_x, blockIdx_x, blockDim_x) \<Rightarrow>
        let index = thread_index threadIdx_x blockIdx_x blockDim_x in
        if in_bounds index buffer
        then store_elem (buf_data buffer) (sint index) 0 m
        else Inr m)"

text \<open>
  A launch \<open><<<grid, block>>>\<close> with one-dimensional grid and block (the second
  dimension is 1 in both launches of the code). The runtime rejects a grid whose
  dimension is 0 or above \<open>2 ^ 31 - 1\<close> with \<open>cudaErrorInvalidConfiguration\<close> and runs
  no thread; otherwise every thread of every block runs once. A thread writes only its
  own element, so the threads are run one after the other.
\<close>

fun run_threads ::
  "(thread \<Rightarrow> 'a machine \<Rightarrow> error + 'a machine) \<Rightarrow> thread list \<Rightarrow> 'a machine
     \<Rightarrow> error + 'a machine" where
  "run_threads kern [] m = Inr m"
| "run_threads kern (t # ts) m =
     (case kern t m of Inl e \<Rightarrow> Inl e | Inr m' \<Rightarrow> run_threads kern ts m')"

definition grid_threads :: "c_uint \<Rightarrow> c_uint \<Rightarrow> thread list" where
  "grid_threads grid_x block_x =
     concat (map (\<lambda>b. map (\<lambda>t. (word_of_nat t, word_of_nat b, block_x)) [0..<unat block_x])
                 [0..<unat grid_x])"

definition launch ::
  "c_uint \<Rightarrow> c_uint \<Rightarrow> (thread \<Rightarrow> 'a machine \<Rightarrow> error + 'a machine) \<Rightarrow> 'a machine
     \<Rightarrow> error + (cudaError_t \<times> 'a machine)" where
  "launch grid_x block_x kern m =
     (if grid_x = 0 \<or> 2 ^ 31 \<le> unat grid_x then Inr (cudaErrorInvalidConfiguration, m)
      else case run_threads kern (grid_threads grid_x block_x) m of
        Inl e \<Rightarrow> Inl e
      | Inr m' \<Rightarrow> Inr (cudaSuccess, m'))"

text \<open>\<open>cudaDeviceSynchronize\<close>: the threads have run when the launch returns here.\<close>

definition cudaDeviceSynchronize :: "'a machine \<Rightarrow> cudaError_t \<times> 'a machine" where
  "cudaDeviceSynchronize m = (cudaSuccess, m)"

section \<open>The operations of \<open>host_shared_ptr\<close>\<close>

definition device_allocate ::
  "c_size_t \<Rightarrow> handle \<Rightarrow> 'a machine \<Rightarrow> error + (handle \<times> 'a machine)" where
  "device_allocate sz h m =
     (case cudaMalloc (byte_count (elem_bytes m) sz) m of (err, p, m') \<Rightarrow>
        (case cuda_safe_call err of
           Inl e \<Rightarrow> Inl e
         | Inr _ \<Rightarrow> Inr (h\<lparr>hsp_data := p\<rparr>, m')))"

text \<open>\<open>host_shared_ptr() = default\<close>: the member initialisers of the struct.\<close>

definition default_handle :: handle where
  "default_handle = \<lparr>hsp_data = None, hsp_host_data = None, hsp_size = 0, hsp_counter = 1\<rparr>"

text \<open>\<open>host_shared_ptr(std::size_t size)\<close>.\<close>

definition construct :: "c_size_t \<Rightarrow> 'a machine \<Rightarrow> error + (handle \<times> 'a machine)" where
  "construct sz m = device_allocate sz (default_handle\<lparr>hsp_size := sz\<rparr>) m"

text \<open>
  \<open>host_shared_ptr(host_shared_ptr<T>&& ptr)\<close> and \<open>host_shared_ptr(host_shared_ptr<T>& ptr)\<close>:
  the new handle; \<open>ptr\<close> itself is not written.
\<close>

definition move_construct :: "handle \<Rightarrow> handle" where
  "move_construct p =
     \<lparr>hsp_data = hsp_data p, hsp_host_data = hsp_host_data p, hsp_size = hsp_size p,
      hsp_counter = hsp_counter p + 1\<rparr>"

definition copy_construct :: "handle \<Rightarrow> handle" where
  "copy_construct p =
     \<lparr>hsp_data = hsp_data p, hsp_host_data = hsp_host_data p, hsp_size = hsp_size p,
      hsp_counter = hsp_counter p + 1\<rparr>"

text \<open>\<open>operator=(host_shared_ptr<T>&& r)\<close>: three assignments, then \<open>*this\<close>.\<close>

definition assign :: "handle \<Rightarrow> handle \<Rightarrow> handle" where
  "assign this r =
     this\<lparr>hsp_data := hsp_data r, hsp_size := hsp_size r, hsp_counter := hsp_counter r + 1\<rparr>"

text \<open>\<open>~host_shared_ptr()\<close>: the handle is gone afterwards, the machine remains.\<close>

definition destroy :: "handle \<Rightarrow> 'a machine \<Rightarrow> error + 'a machine" where
  "destroy h m =
     (if hsp_counter h - 1 = 0
      then (case cudaFree (hsp_data h) m of (err, m') \<Rightarrow>
              (case cuda_safe_call err of
                 Inl e \<Rightarrow> Inl e
               | Inr _ \<Rightarrow>
                   if hsp_host_data h \<noteq> None then delete_array (hsp_host_data h) m'
                   else Inr m'))
      else Inr m)"

text \<open>\<open>host_allocate(std::size_t size)\<close> and \<open>host_allocate()\<close>.\<close>

definition host_allocate ::
  "c_size_t \<Rightarrow> handle \<Rightarrow> 'a machine \<Rightarrow> error + (handle \<times> 'a machine)" where
  "host_allocate sz h m =
     (case new_array (unat sz) m of
        Inl e \<Rightarrow> Inl e
      | Inr (p, m') \<Rightarrow> Inr (h\<lparr>hsp_host_data := p, hsp_size := sz\<rparr>, m'))"

definition host_allocate0 :: "handle \<Rightarrow> 'a machine \<Rightarrow> error + (handle \<times> 'a machine)" where
  "host_allocate0 h m = host_allocate (hsp_size h) h m"

text \<open>\<open>download()\<close> returns the mirror's address with the handle and the machine.\<close>

definition download :: "handle \<Rightarrow> 'a machine \<Rightarrow> error + (ptr \<times> handle \<times> 'a machine)" where
  "download h m =
     (case (if hsp_host_data h = None then host_allocate0 h m else Inr (h, m)) of
        Inl e \<Rightarrow> Inl e
      | Inr (h1, m1) \<Rightarrow>
          (case cudaMemcpyDeviceToHost (hsp_host_data h1) (hsp_data h1)
                  (byte_count (elem_bytes m1) (hsp_size h1)) m1 of
             Inl e \<Rightarrow> Inl e
           | Inr (err, m2) \<Rightarrow>
               (case cuda_safe_call err of
                  Inl e \<Rightarrow> Inl e
                | Inr _ \<Rightarrow> Inr (hsp_host_data h1, h1, m2))))"

definition upload :: "handle \<Rightarrow> 'a machine \<Rightarrow> error + (handle \<times> 'a machine)" where
  "upload h m =
     (case cudaMemcpyHostToDevice (hsp_data h) (hsp_host_data h)
             (byte_count (elem_bytes m) (hsp_size h)) m of
        Inl e \<Rightarrow> Inl e
      | Inr (err, m1) \<Rightarrow>
          (case cuda_safe_call err of
             Inl e \<Rightarrow> Inl e
           | Inr _ \<Rightarrow> Inr (h, m1)))"

text \<open>
  Modelled from the spec: the constructor \<open>device_buffer(host_shared_ptr<T>&)\<close> (not
  among the sources) snapshots the device pointer and the element count.
\<close>

definition to_device :: "handle \<Rightarrow> device_buffer" where
  "to_device h = \<lparr>buf_data = hsp_data h, buf_size = hsp_size h\<rparr>"

text \<open>
  \<open>const int gx = (size_ + TILE_WIDTH - 1) / TILE_WIDTH\<close>: computed in \<open>std::size_t\<close>,
  then narrowed to \<open>int\<close>.
\<close>

definition TILE_WIDTH :: nat where
  "TILE_WIDTH = 64"

definition grid_dim :: "c_size_t \<Rightarrow> c_int" where
  "grid_dim n = ucast ((n + word_of_nat TILE_WIDTH - 1) div word_of_nat TILE_WIDTH)"

text \<open>
  \<open>device_fill(val)\<close>: \<open>dim3 block(TILE_WIDTH, TILE_HEIGHT)\<close> and \<open>dim3 grid(gx, gy)\<close>
  take the \<open>int\<close>s as \<open>unsigned int\<close>; the status of \<open>cudaDeviceSynchronize\<close> is dropped.
\<close>

definition device_fill :: "'a \<Rightarrow> handle \<Rightarrow> 'a machine \<Rightarrow> error + (handle \<times> 'a machine)" where
  "device_fill val h m =
     (let device_buffer = to_device h;
          lambda = (\<lambda>_. val);
          gx = grid_dim (hsp_size h)
      in case launch gx (word_of_nat TILE_WIDTH) (kernel_fill device_buffer lambda) m of
           Inl e \<Rightarrow> Inl e
         | Inr (status, m1) \<Rightarrow>
             (case kernel_check_error status of
                Inl e \<Rightarrow> Inl e
              | Inr _ \<Rightarrow> Inr (h, snd (cudaDeviceSynchronize m1))))"

text \<open>
  \<open>to_bench(buffer)\<close> of \<open>to_bench.cu\<close>: the same launch with \<open>kernel\<close>. The calls to the
  profiler and the cache configuration around it do not touch the buffer.
\<close>

definition to_bench ::
  "handle \<Rightarrow> c_int machine \<Rightarrow> error + (handle \<times> c_int machine)" where
  "to_bench buffer m =
     (let device_buffer = to_device buffer;
          gx = grid_dim (hsp_size buffer)
      in case launch gx (word_of_nat TILE_WIDTH) (kernel device_buffer) m of
           Inl e \<Rightarrow> Inl e
         | Inr (status, m1) \<Rightarrow>
             (case kernel_check_error status of
                Inl e \<Rightarrow> Inl e
              | Inr _ \<Rightarrow> Inr (buffer, snd (cudaDeviceSynchronize m1))))"

text \<open>\<open>host_map(func)\<close>, and \<open>host_fill(val)\<close> built on it.\<close>

definition host_map ::
  "('a \<Rightarrow> 'a) \<Rightarrow> handle \<Rightarrow> 'a machine \<Rightarrow> error + (handle \<times> 'a machine)" where
  "host_map func h m =
     (case (if hsp_host_data h = None then host_allocate0 h m else Inr (h, m)) of
        Inl e \<Rightarrow> Inl e
      | Inr (h1, m1) \<Rightarrow>
          (case std_transform (hsp_host_data h1) (unat (hsp_size h1)) (hsp_host_data h1)
                  func m1 of
             Inl e \<Rightarrow> Inl e
           | Inr m2 \<Rightarrow> Inr (h1, m2)))"

definition host_fill :: "'a \<Rightarrow> handle \<Rightarrow> 'a machine \<Rightarrow> error + (handle \<times> 'a machine)" where
  "host_fill val h m = host_map (\<lambda>arg. val) h m"

text \<open>
  \<open>return cp\<close> of a named local. The language lets the compiler construct \<open>cp\<close> in the
  caller's object (\<open>elided\<close>: no constructor or destructor runs at the return), and does
  not require it: otherwise the result is move-constructed from \<open>cp\<close> and \<open>cp\<close> is then
  destroyed.
\<close>

definition return_local ::
  "bool \<Rightarrow> handle \<Rightarrow> 'a machine \<Rightarrow> error + (handle \<times> 'a machine)" where
  "return_local elided cp m =
     (if elided then Inr (cp, m)
      else let result = move_construct cp in
        case destroy cp m of
          Inl e \<Rightarrow> Inl e
        | Inr m' \<Rightarrow> Inr (result, m'))"

text \<open>
  \<open>copy()\<close> returns the new handle; \<open>this\<close> is not written. \<open>elided\<close> is the compiler's
  choice at \<open>return cp\<close>.
\<close>

definition copy :: "bool \<Rightarrow> handle \<Rightarrow> 'a machine \<Rightarrow> error + (handle \<times> 'a machine)" where
  "copy elided this m =
     (case construct (hsp_size this) m of
        Inl e \<Rightarrow> Inl e
      | Inr (cp, m1) \<Rightarrow>
          (case cudaMemcpyDeviceToDevice (hsp_data cp) (hsp_data this)
                  (byte_count (elem_bytes m1) (hsp_size this)) m1 of
             (err, m2) \<Rightarrow>
               (case cuda_safe_call err of
                  Inl e \<Rightarrow> Inl e
                | Inr _ \<Rightarrow>
                    if hsp_host_data this \<noteq> None
                    then (case host_allocate0 cp m2 of
                            Inl e \<Rightarrow> Inl e
                          | Inr (cp1, m3) \<Rightarrow>
                              (case std_copy (hsp_host_data this) (unat (hsp_size this))
                                             (hsp_host_data cp1) m3 of
                                 Inl e \<Rightarrow> Inl e
                               | Inr m4 \<Rightarrow> return_local elided cp1 m4))
                    else return_local elided cp m2)))"

section \<open>Reading the store, well-formed buffers\<close>

text \<open>The contents behind a pointer, if it points to a live allocation.\<close>

definition host_block :: "'a machine \<Rightarrow> ptr \<Rightarrow> 'a list option" where
  "host_block m p = (case p of None \<Rightarrow> None | Some a \<Rightarrow> host_mem m a)"

definition dev_block :: "'a machine \<Rightarrow> ptr \<Rightarrow> 'a list option" where
  "dev_block m p = (case p of None \<Rightarrow> None | Some a \<Rightarrow> dev_mem m a)"

text \<open>
  A buffer as the constructor and the mirror operations leave it: the device pointer is
  live and holds \<open>size_\<close> elements, which fit the 64-bit address space; the host mirror
  is absent or live with \<open>size_\<close> elements.
\<close>

definition valid_buffer :: "handle \<Rightarrow> 'a machine \<Rightarrow> bool" where
  "valid_buffer h m \<longleftrightarrow>
     0 < elem_bytes m \<and> unat (hsp_size h) * elem_bytes m < 2 ^ 64
     \<and> map_option length (dev_block m (hsp_data h)) = Some (unat (hsp_size h))
     \<and> (hsp_host_data h = None
        \<or> map_option length (host_block m (hsp_host_data h)) = Some (unat (hsp_size h)))"

text \<open>The allocators hand out addresses that are not in use.\<close>

definition allocator_fresh :: "'a machine \<Rightarrow> bool" where
  "allocator_fresh m \<longleftrightarrow> dev_mem m (dev_next m) = None \<and> host_mem m (host_next m) = None"

text \<open>
  A machine with nothing allocated: \<open>e\<close> bytes per element, \<open>avail\<close> bytes free on each
  side, \<open>g\<close> in every cell of fresh memory.
\<close>

definition init_machine :: "nat \<Rightarrow> nat \<Rightarrow> 'a \<Rightarrow> 'a machine" where
  "init_machine e avail g =
     \<lparr>elem_bytes = e,
      dev_mem = Map.empty, dev_avail = avail, dev_next = 0, dev_stale = (\<lambda>a i. g),
      dev_freed = [], dev_stores = [],
      host_mem = Map.empty, host_avail = avail, host_next = 0, host_stale = (\<lambda>a i. g),
      host_freed = []\<rparr>"

text \<open>
  The resources \<open>copy()\<close> and \<open>download()\<close> need to return: device memory for the new
  allocation, and host memory for a mirror that has to be allocated.
\<close>

definition copy_resources :: "handle \<Rightarrow> 'a machine \<Rightarrow> bool" where
  "copy_resources this m \<longleftrightarrow>
     unat (hsp_size this) * elem_bytes m \<le> dev_avail m
     \<and> (hsp_host_data this = None \<or> unat (hsp_size this) * elem_bytes m \<le> host_avail m)"

definition mirror_ready :: "handle \<Rightarrow> 'a machine \<Rightarrow> bool" where
  "mirror_ready h m \<longleftrightarrow>
     hsp_host_data h \<noteq> None \<or> unat (hsp_size h) * elem_bytes m \<le> host_avail m"

text \<open>
  The machine after a fill kernel has stored \<open>v\<close> in the elements \<open>0..<j\<close> of the device
  allocation \<open>a\<close>, whose contents were \<open>xs\<close>: one logged store for each, in order.
\<close>

definition after_fill :: "'a machine \<Rightarrow> nat \<Rightarrow> nat \<Rightarrow> 'a \<Rightarrow> 'a list \<Rightarrow> 'a machine" where
  "after_fill m a j v xs =
     m\<lparr>dev_mem := (dev_mem m)(a \<mapsto> replicate j v @ drop j xs),
       dev_stores := dev_stores m @ map (Pair a) [0..<j]\<rparr>"

text \<open>Concrete buffers: one with a mirror, one without.\<close>

definition mirrored_handle :: handle where
  "mirrored_handle = \<lparr>hsp_data = Some 0, hsp_host_data = Some 0, hsp_size = 3, hsp_counter = 1\<rparr>"

definition mirrored_machine :: "c_int machine" where
  "mirrored_machine =
     (init_machine 4 1024 0)\<lparr>dev_mem := [0 \<mapsto> [1, 2, 3]], dev_next := 1,
                              host_mem := [0 \<mapsto> [4, 5, 6]], host_next := 1\<rparr>"

definition unmirrored_handle :: handle where
  "unmirrored_handle = \<lparr>hsp_data = Some 0, hsp_host_data = None, hsp_size = 8, hsp_counter = 1\<rparr>"

definition unmirrored_machine :: "c_int machine" where
  "unmirrored_machine =
     (init_machine 4 1024 0)\<lparr>dev_mem := [0 \<mapsto> [1, 2, 3, 4, 5, 6, 7, 8]], dev_next := 1\<rparr>"

text \<open>
  A buffer of \<open>2 ^ 31 + 1\<close> elements of \<open>int\<close> (8 GiB on each side): constructed on a
  machine with 1 TiB free on each side and zeros in fresh memory, then \<open>host_fill(7)\<close>.
  \<open>big_handle\<close> and \<open>big_machine\<close> are the handle and the machine this gives: zeros on the
  device, sevens in the mirror.
\<close>

definition big_count :: c_size_t where
  "big_count = 2 ^ 31 + 1"

definition big_handle :: handle where
  "big_handle =
     \<lparr>hsp_data = Some 0, hsp_host_data = Some 0, hsp_size = big_count, hsp_counter = 1\<rparr>"

definition big_buffer :: "error + (handle \<times> c_int machine)" where
  "big_buffer =
     (case construct big_count (init_machine 4 (2 ^ 40) 0) of
        Inl e \<Rightarrow> Inl e
      | Inr (h, m) \<Rightarrow> host_fill 7 h m)"

definition big_machine :: "c_int machine" where
  "big_machine =
     (init_machine 4 (2 ^ 40) 0)
       \<lparr>dev_mem := [0 \<mapsto> replicate (unat big_count) 0],
        dev_avail := 2 ^ 40 - unat big_count * 4, dev_next := 1,
        host_mem := [0 \<mapsto> replicate (unat big_count) 7],
        host_avail := 2 ^ 40 - unat big_count * 4, host_next := 1\<rparr>"

section \<open>Facts about the runtime\<close>

text \<open>
  What the runtime calls and the mirror operations return on a valid buffer, as equations
  that the claims below are proved from.
\<close>

lemma byte_count_exact:
  assumes "0 < e" and "unat n * e < 2 ^ 64"
  shows "byte_count e n = unat n * e"
proof (cases "unat n = 0")
  case True
  then have "n = 0" by (simp add: unat_eq_0)
  then show ?thesis by (simp add: byte_count_def)
next
  case False
  then have "e \<le> unat n * e" by simp
  with assms have e: "e < 2 ^ 64" by linarith
  have "byte_count e n = (e mod 2 ^ 64 * unat n) mod 2 ^ 64"
    by (simp add: byte_count_def unat_word_ariths unat_of_nat)
  with e assms show ?thesis by (simp add: mult.commute)
qed

lemma read_range_live:
  "map_option length (mem a) = Some n \<Longrightarrow> read_range mem (Some a) n = mem a"
  by (auto simp: read_range_def)

lemma write_range_whole:
  "map_option length (mem a) = Some (length xs) \<Longrightarrow>
   write_range mem (Some a) xs = Some (mem(a \<mapsto> xs))"
  by (auto simp: write_range_def map_upd_triv)

lemma construct_result:
  assumes "0 < elem_bytes m" and "unat n * elem_bytes m < 2 ^ 64"
    and "unat n * elem_bytes m \<le> dev_avail m"
  shows "construct n m
    = Inr (\<lparr>hsp_data = Some (dev_next m), hsp_host_data = None, hsp_size = n, hsp_counter = 1\<rparr>,
           m\<lparr>dev_mem := (dev_mem m)(dev_next m \<mapsto> map (dev_stale m (dev_next m)) [0..<unat n]),
             dev_avail := dev_avail m - unat n * elem_bytes m,
             dev_next := Suc (dev_next m)\<rparr>)"
  using assms
  by (simp add: construct_def device_allocate_def cudaMalloc_def cuda_safe_call_def
      default_handle_def Let_def byte_count_exact)

lemma host_map_absent:
  assumes "hsp_host_data h = None" and "unat (hsp_size h) * elem_bytes m < 2 ^ 64"
    and "unat (hsp_size h) * elem_bytes m \<le> host_avail m"
  shows "host_map f h m
    = Inr (h\<lparr>hsp_host_data := Some (host_next m)\<rparr>,
           m\<lparr>host_mem := (host_mem m)(host_next m \<mapsto>
                  map f (map (host_stale m (host_next m)) [0..<unat (hsp_size h)])),
             host_avail := host_avail m - unat (hsp_size h) * elem_bytes m,
             host_next := Suc (host_next m)\<rparr>)"
  using assms
  by (simp add: host_map_def host_allocate0_def host_allocate_def new_array_def Let_def
      std_transform_def read_range_live write_range_whole)

lemma copy_result:
  assumes v: "valid_buffer this m" and f: "allocator_fresh m" and r: "copy_resources this m"
    and d: "dev_block m (hsp_data this) = Some xs"
  shows "copy True this m =
    (case hsp_host_data this of
       None \<Rightarrow> Inr (\<lparr>hsp_data = Some (dev_next m), hsp_host_data = None,
                      hsp_size = hsp_size this, hsp_counter = 1\<rparr>,
                    m\<lparr>dev_mem := (dev_mem m)(dev_next m \<mapsto> xs),
                      dev_avail := dev_avail m - unat (hsp_size this) * elem_bytes m,
                      dev_next := Suc (dev_next m)\<rparr>)
     | Some b \<Rightarrow> Inr (\<lparr>hsp_data = Some (dev_next m), hsp_host_data = Some (host_next m),
                      hsp_size = hsp_size this, hsp_counter = 1\<rparr>,
                    m\<lparr>dev_mem := (dev_mem m)(dev_next m \<mapsto> xs),
                      dev_avail := dev_avail m - unat (hsp_size this) * elem_bytes m,
                      dev_next := Suc (dev_next m),
                      host_mem := (host_mem m)(host_next m \<mapsto> the (host_mem m b)),
                      host_avail := host_avail m - unat (hsp_size this) * elem_bytes m,
                      host_next := Suc (host_next m)\<rparr>))"
proof -
  from v have e: "0 < elem_bytes m" and w: "unat (hsp_size this) * elem_bytes m < 2 ^ 64"
    by (simp_all add: valid_buffer_def)
  note bc = byte_count_exact [OF e w]
  from v d obtain a where a: "hsp_data this = Some a" "dev_mem m a = Some xs"
    and lx: "length xs = unat (hsp_size this)"
    by (auto simp: valid_buffer_def dev_block_def split: option.splits)
  from f a have na: "a \<noteq> dev_next m" by (auto simp: allocator_fresh_def)
  show ?thesis
  proof (cases "hsp_host_data this")
    case None
    with e w r a lx na show ?thesis
      by (simp add: copy_def return_local_def construct_def device_allocate_def cudaMalloc_def cuda_safe_call_def
          default_handle_def Let_def bc copy_resources_def cudaMemcpyDeviceToDevice_def
          read_range_live write_range_whole)
  next
    case (Some b)
    with v obtain ys where b: "host_mem m b = Some ys" and ly: "length ys = unat (hsp_size this)"
      by (auto simp: valid_buffer_def host_block_def)
    from f b have nb: "b \<noteq> host_next m" by (auto simp: allocator_fresh_def)
    from Some e w r a lx na b ly nb show ?thesis
      by (simp add: copy_def return_local_def construct_def device_allocate_def cudaMalloc_def cuda_safe_call_def
          default_handle_def Let_def bc copy_resources_def cudaMemcpyDeviceToDevice_def
          read_range_live write_range_whole host_allocate0_def host_allocate_def new_array_def
          std_copy_def)
  qed
qed

lemma host_map_present:
  assumes "hsp_host_data h = Some b" and "host_mem m b = Some ys"
    and "length ys = unat (hsp_size h)"
  shows "host_map f h m = Inr (h, m\<lparr>host_mem := (host_mem m)(b \<mapsto> map f ys)\<rparr>)"
  using assms
  by (simp add: host_map_def std_transform_def read_range_live write_range_whole)

lemma download_result:
  assumes e: "0 < elem_bytes m" and w: "unat (hsp_size h) * elem_bytes m < 2 ^ 64"
    and d: "hsp_data h = Some a" "dev_mem m a = Some ys" "length ys = unat (hsp_size h)"
    and v: "hsp_host_data h = None
        \<or> map_option length (host_block m (hsp_host_data h)) = Some (unat (hsp_size h))"
    and r: "mirror_ready h m"
  shows "\<exists>p h' m'. download h m = Inr (p, h', m') \<and> p = hsp_host_data h' \<and> p \<noteq> None
     \<and> hsp_size h' = hsp_size h \<and> hsp_data h' = hsp_data h \<and> hsp_counter h' = hsp_counter h
     \<and> host_block m' p = Some ys \<and> dev_mem m' = dev_mem m"
proof (cases "hsp_host_data h")
  case None
  with r have av: "unat (hsp_size h) * elem_bytes m \<le> host_avail m"
    by (simp add: mirror_ready_def)
  from None e w av d show ?thesis
    by (simp add: download_def host_allocate0_def host_allocate_def new_array_def Let_def
        cudaMemcpyDeviceToHost_def byte_count_exact read_range_live write_range_whole
        cuda_safe_call_def host_block_def)
next
  case (Some b)
  with v have hb: "map_option length (host_mem m b) = Some (unat (hsp_size h))"
    by (simp add: host_block_def)
  from Some e w d hb show ?thesis
    by (simp add: download_def cudaMemcpyDeviceToHost_def byte_count_exact read_range_live
        write_range_whole cuda_safe_call_def host_block_def)
qed

lemma upload_result:
  assumes e: "0 < elem_bytes m" and w: "unat (hsp_size h) * elem_bytes m < 2 ^ 64"
    and d: "hsp_data h = Some a" "map_option length (dev_mem m a) = Some (unat (hsp_size h))"
    and b: "hsp_host_data h = Some b" "host_mem m b = Some ys" "length ys = unat (hsp_size h)"
  shows "upload h m = Inr (h, m\<lparr>dev_mem := (dev_mem m)(a \<mapsto> ys)\<rparr>)"
  using assms
  by (simp add: upload_def cudaMemcpyHostToDevice_def byte_count_exact read_range_live
      write_range_whole cuda_safe_call_def)

section \<open>Facts about the index arithmetic\<close>

text \<open>
  The thread index as an \<open>int\<close>: below \<open>2 ^ 31\<close> it is the linear index of the thread and
  the bounds check compares it with the element count; from \<open>2 ^ 31\<close> on it is negative
  and the bounds check fails. The grid covers the elements with the least number of
  tiles.
\<close>

lemma mod_second_period:
  fixes x m :: int
  assumes "m \<le> x" and "x < 2 * m"
  shows "x mod m = x - m"
proof -
  have a: "(x - m) mod m = x mod m" by simp
  have b: "(x - m) mod m = x - m" using assms by (intro mod_pos_pos_trivial) auto
  from a [symmetric] b show ?thesis by (rule trans)
qed

lemma sint_small:
  assumes "k < 2 ^ 31"
  shows "sint (word_of_nat k :: 32 word) = int k"
proof -
  have "sint (word_of_nat k :: 32 word) = signed_take_bit 31 (int k)"
    by (simp add: signed_of_nat)
  also have "\<dots> = int k"
    using assms by (intro signed_take_bit_int_eq_self) auto
  finally show ?thesis .
qed

lemma sint_big:
  assumes "2 ^ 31 \<le> k" and "k < 2 ^ 32"
  shows "sint (word_of_nat k :: 32 word) = int k - 2 ^ 32"
proof -
  have "sint (word_of_nat k :: 32 word) = signed_take_bit 31 (int k)"
    by (simp add: signed_of_nat)
  also have "\<dots> = (int k + 2 ^ 31) mod 2 ^ 32 - 2 ^ 31"
    by (simp add: signed_take_bit_eq_take_bit_shift take_bit_eq_mod)
  also have "(int k + 2 ^ 31) mod 2 ^ 32 = int k + 2 ^ 31 - 2 ^ 32"
    using assms by (intro mod_second_period) auto
  finally show ?thesis by simp
qed

lemma in_bounds_small:
  assumes "k < 2 ^ 31"
  shows "in_bounds (word_of_nat k) \<lparr>buf_data = p, buf_size = n\<rparr> \<longleftrightarrow> k < unat n"
proof -
  have "(scast (word_of_nat k :: 32 word) :: 64 word) = word_of_nat k"
    by (simp add: scast_eq sint_small [OF assms])
  moreover have "unat (word_of_nat k :: 64 word) = k"
    using assms by (simp add: unat_of_nat)
  ultimately show ?thesis by (simp add: in_bounds_def word_less_nat_alt)
qed

lemma in_bounds_big:
  assumes "2 ^ 31 \<le> k" and "k < 2 ^ 32" and "unat n \<le> 2 ^ 63"
  shows "\<not> in_bounds (word_of_nat k) \<lparr>buf_data = p, buf_size = n\<rparr>"
proof -
  define x where "x = int k - 2 ^ 32"
  have s: "sint (word_of_nat k :: 32 word) = x"
    unfolding x_def by (rule sint_big [OF assms(1,2)])
  have "(scast (word_of_nat k :: 32 word) :: 64 word) = word_of_int x"
    unfolding scast_eq s ..
  then have "uint (scast (word_of_nat k :: 32 word) :: 64 word) = x mod 2 ^ 64"
    by (simp add: uint_word_of_int)
  also have "\<dots> = (x + 2 ^ 64) mod 2 ^ 64"
    by simp
  also have "\<dots> = x + 2 ^ 64"
    using assms(1,2) unfolding x_def by (intro mod_pos_pos_trivial) auto
  finally have "2 ^ 63 \<le> uint (scast (word_of_nat k :: 32 word) :: 64 word)"
    using assms(1,2) unfolding x_def by simp
  moreover have "uint n \<le> 2 ^ 63"
  proof -
    have "int (unat n) \<le> int (2 ^ 63)" using assms(3) by (simp only: of_nat_le_iff)
    then show ?thesis by (simp only: uint_nat of_nat_power of_nat_numeral)
  qed
  ultimately have "\<not> uint (scast (word_of_nat k :: 32 word) :: 64 word) < uint n"
    by linarith
  then show ?thesis by (simp add: in_bounds_def word_less_def)
qed

lemma grid_dim_unat:
  assumes "unat n \<le> 2 ^ 32"
  shows "unat (grid_dim n) = (unat n + 63) div 64"
proof -
  have e: "n + 64 - 1 = n + 63" by simp
  have g: "grid_dim n = ucast ((n + 63) div 64)"
    by (simp only: grid_dim_def TILE_WIDTH_def of_nat_numeral e)
  have "unat (n + 63) = (unat n + 63) mod 2 ^ 64"
    by (simp add: unat_word_ariths)
  also have "\<dots> = unat n + 63" using assms by (intro mod_less) simp
  finally have a: "unat (n + 63) = unat n + 63" .
  have b: "unat ((n + 63) div 64) = (unat n + 63) div 64"
    by (simp add: unat_div a)
  have c: "(unat n + 63) div 64 < 2 ^ 32" using assms by simp
  have "unat (grid_dim n) = take_bit 32 (unat ((n + 63) div 64))"
    unfolding g by (simp add: unsigned_ucast_eq)
  also have "\<dots> = (unat n + 63) div 64"
    unfolding b using c by (simp add: take_bit_nat_eq_self)
  finally show ?thesis .
qed

lemma tiles_cover:
  fixes n :: nat
  shows "n \<le> (n + 63) div 64 * 64" and "(n + 63) div 64 * 64 \<le> n + 63"
   and "0 < n \<Longrightarrow> 0 < (n + 63) div 64"
proof -
  define q where "q = (n + 63) div 64"
  define r where "r = (n + 63) mod 64"
  have e: "q * 64 + r = n + 63" unfolding q_def r_def by simp
  have r: "r < 64" unfolding r_def by simp
  from e r show "n \<le> (n + 63) div 64 * 64" unfolding q_def [symmetric] by linarith
  from e show "(n + 63) div 64 * 64 \<le> n + 63" unfolding q_def [symmetric] by linarith
  show "0 < (n + 63) div 64" if "0 < n"
  proof (rule ccontr)
    assume "\<not> 0 < (n + 63) div 64"
    then have "q = 0" by (simp add: q_def)
    with e r that show False by simp
  qed
qed

lemma thread_index_linear:
  "thread_index (word_of_nat (k mod 64)) (word_of_nat (k div 64)) 64 = word_of_nat k"
proof -
  have "k mod 64 + k div 64 * 64 = k" by simp
  then have "(word_of_nat (k mod 64 + k div 64 * 64) :: 32 word) = word_of_nat k" by simp
  then show ?thesis unfolding thread_index_def of_nat_add of_nat_mult by simp
qed

section \<open>Facts about launches\<close>

text \<open>
  The threads of a grid in the order of their linear index, the effect of one thread of
  the fill kernel, and by induction on the number of threads the effect of the launch:
  the elements below \<open>min N (2 ^ 31)\<close> are stored, each once, and nothing else changes.
\<close>

lemma concat_map_upt_linear:
  "concat (map (\<lambda>b. map (\<lambda>t. f t b) [0..<w]) [0..<g])
     = map (\<lambda>k. f (k mod w) (k div w)) [0..<g * w]"
proof (induction g)
  case 0
  show ?case by simp
next
  case (Suc g)
  have "[0..<g * w + w] = [0..<g * w] @ [g * w..<g * w + w]"
    by (rule upt_add_eq_append) simp
  then have split: "[0..<Suc g * w] = [0..<g * w] @ [g * w..<w + g * w]"
    by (simp only: mult_Suc add.commute [of w])
  have "[g * w..<w + g * w] = map (\<lambda>i. i + g * w) [0..<w]"
    by (simp only: map_add_upt)
  then have "map (\<lambda>k. f (k mod w) (k div w)) [g * w..<w + g * w]
      = map (\<lambda>i. f ((i + g * w) mod w) ((i + g * w) div w)) [0..<w]"
    by (simp only: map_map comp_def)
  also have "\<dots> = map (\<lambda>t. f t g) [0..<w]"
  proof (rule map_cong [OF refl])
    fix i assume "i \<in> set [0..<w]"
    then have "i < w" by simp
    then show "f ((i + g * w) mod w) ((i + g * w) div w) = f i g" by simp
  qed
  finally have last: "map (\<lambda>k. f (k mod w) (k div w)) [g * w..<w + g * w]
      = map (\<lambda>t. f t g) [0..<w]" .
  have "concat (map (\<lambda>b. map (\<lambda>t. f t b) [0..<w]) [0..<Suc g])
      = concat (map (\<lambda>b. map (\<lambda>t. f t b) [0..<w]) [0..<g]) @ map (\<lambda>t. f t g) [0..<w]"
    by simp
  also have "\<dots> = map (\<lambda>k. f (k mod w) (k div w)) [0..<g * w]
      @ map (\<lambda>k. f (k mod w) (k div w)) [g * w..<w + g * w]"
    by (simp only: Suc.IH last)
  also have "\<dots> = map (\<lambda>k. f (k mod w) (k div w)) [0..<Suc g * w]"
    by (simp only: split map_append)
  finally show ?case .
qed

lemma grid_threads_general:
  "grid_threads gx bx =
     map (\<lambda>k. (word_of_nat (k mod unat bx), word_of_nat (k div unat bx), bx))
         [0..<unat gx * unat bx]"
  unfolding grid_threads_def by (rule concat_map_upt_linear)

lemma grid_threads_linear:
  "grid_threads gx 64 =
     map (\<lambda>k. (word_of_nat (k mod 64), word_of_nat (k div 64), 64)) [0..<unat gx * 64]"
proof -
  have "unat (64 :: 32 word) = 64" by simp
  with grid_threads_general [of gx 64] show ?thesis by (simp only:)
qed

lemma run_threads_append:
  "run_threads kern (ts @ us) m =
     (case run_threads kern ts m of Inl e \<Rightarrow> Inl e | Inr m' \<Rightarrow> run_threads kern us m')"
  by (induction ts arbitrary: m) (auto split: sum.splits)

lemma kernel_fill_thread:
  assumes "dev_mem m a = Some ys" and "k < 2 ^ 32" and "unat n \<le> 2 ^ 63"
    and "unat n \<le> length ys"
  shows "kernel_fill \<lparr>buf_data = Some a, buf_size = n\<rparr> func
           (word_of_nat (k mod 64), word_of_nat (k div 64), 64) m =
     (if k < 2 ^ 31 \<and> k < unat n
      then Inr (m\<lparr>dev_mem := (dev_mem m)(a \<mapsto> ys[k := func ()]),
                 dev_stores := dev_stores m @ [(a, k)]\<rparr>)
      else Inr m)"
proof (cases "k < 2 ^ 31")
  case True
  then show ?thesis
    using assms(1,4)
    by (simp add: kernel_fill_def thread_index_linear in_bounds_small sint_small store_elem_def)
next
  case False
  then have "2 ^ 31 \<le> k" by simp
  from in_bounds_big [OF this assms(2,3)] False show ?thesis
    by (simp add: kernel_fill_def thread_index_linear)
qed

lemma fill_next:
  assumes "j < length xs"
  shows "(replicate j v @ drop j xs)[j := v] = replicate (Suc j) v @ drop (Suc j) xs"
proof -
  have d: "drop j xs = xs ! j # drop (Suc j) xs"
    using assms by (simp add: Cons_nth_drop_Suc)
  have "(replicate j v @ drop j xs)[j := v] = replicate j v @ (drop j xs)[0 := v]"
    by (simp add: list_update_append)
  also have "\<dots> = replicate j v @ v # drop (Suc j) xs"
    by (subst d) simp
  also have "\<dots> = replicate (Suc j) v @ drop (Suc j) xs"
    by (simp add: replicate_app_Cons_same)
  finally show ?thesis .
qed

lemma run_threads_fill:
  assumes a: "dev_mem m a = Some xs" and l: "length xs = unat n" and n: "unat n \<le> 2 ^ 63"
    and K: "K \<le> 2 ^ 32"
  shows "run_threads (kernel_fill \<lparr>buf_data = Some a, buf_size = n\<rparr> (\<lambda>_. v))
           (map (\<lambda>k. (word_of_nat (k mod 64), word_of_nat (k div 64), 64)) [0..<K]) m
         = Inr (after_fill m a (min K (min (unat n) (2 ^ 31))) v xs)"
  using K
proof (induction K)
  case 0
  from a show ?case by (simp add: after_fill_def map_upd_triv)
next
  case (Suc K)
  define L where "L = min (unat n) (2 ^ 31 :: nat)"
  define S where "S = after_fill m a (min K L) v xs"
  from Suc have IH: "run_threads (kernel_fill \<lparr>buf_data = Some a, buf_size = n\<rparr> (\<lambda>_. v))
           (map (\<lambda>k. (word_of_nat (k mod 64), word_of_nat (k div 64), 64)) [0..<K]) m = Inr S"
    and K: "K < 2 ^ 32"
    by (simp_all add: S_def L_def)
  have Sa: "dev_mem S a = Some (replicate (min K L) v @ drop (min K L) xs)"
    by (simp add: S_def after_fill_def)
  have len: "unat n \<le> length (replicate (min K L) v @ drop (min K L) xs)"
    using l by (simp add: L_def)
  note step = kernel_fill_thread [OF Sa K n len, of "\<lambda>_. v"]
  have one: "run_threads kern [t] S = kern t S" for kern :: "thread \<Rightarrow> 'a machine \<Rightarrow> error + 'a machine" and t
    by (simp split: sum.splits)
  have "run_threads (kernel_fill \<lparr>buf_data = Some a, buf_size = n\<rparr> (\<lambda>_. v))
           [(word_of_nat (K mod 64), word_of_nat (K div 64), 64)] S
         = Inr (after_fill m a (min (Suc K) L) v xs)"
  proof (cases "K < L")
    case True
    then have c: "K < 2 ^ 31 \<and> K < unat n" and mk: "min K L = K" and ms: "min (Suc K) L = Suc K"
      by (simp_all add: L_def)
    from True l have "K < length xs" by (simp add: L_def)
    note fn = fill_next [OF this, of v]
    have "kernel_fill \<lparr>buf_data = Some a, buf_size = n\<rparr> (\<lambda>_. v)
           (word_of_nat (K mod 64), word_of_nat (K div 64), 64) S
        = Inr (S\<lparr>dev_mem := (dev_mem S)(a \<mapsto> (replicate K v @ drop K xs)[K := v]),
                 dev_stores := dev_stores S @ [(a, K)]\<rparr>)"
      using c step by (simp add: mk)
    also have "S\<lparr>dev_mem := (dev_mem S)(a \<mapsto> (replicate K v @ drop K xs)[K := v]),
                 dev_stores := dev_stores S @ [(a, K)]\<rparr> = after_fill m a (Suc K) v xs"
      by (simp add: S_def after_fill_def mk fn)
    finally show ?thesis by (simp only: one ms)
  next
    case False
    then have c: "\<not> (K < 2 ^ 31 \<and> K < unat n)" and ms: "min (Suc K) L = min K L"
      by (auto simp: L_def)
    have "kernel_fill \<lparr>buf_data = Some a, buf_size = n\<rparr> (\<lambda>_. v)
           (word_of_nat (K mod 64), word_of_nat (K div 64), 64) S = Inr S"
      unfolding step using c by (rule if_not_P)
    then have "run_threads (kernel_fill \<lparr>buf_data = Some a, buf_size = n\<rparr> (\<lambda>_. v))
           [(word_of_nat (K mod 64), word_of_nat (K div 64), 64)] S = Inr S"
      by (simp only: one)
    then show ?thesis by (simp only: ms S_def)
  qed
  then show ?case
    by (simp add: run_threads_append IH L_def del: run_threads.simps)
qed

lemma device_fill_result:
  assumes a: "hsp_data h = Some a" and x: "dev_mem m a = Some xs"
    and l: "length xs = unat (hsp_size h)"
    and pos: "0 < unat (hsp_size h)" and ub: "unat (hsp_size h) + 63 \<le> 2 ^ 32"
  shows "device_fill v h m
       = Inr (h, after_fill m a (min (unat (hsp_size h)) (2 ^ 31)) v xs)"
proof -
  define N where "N = unat (hsp_size h)"
  define G where "G = (N + 63) div 64"
  have N32: "N \<le> 2 ^ 32" and N63: "N \<le> 2 ^ 63" using ub by (simp_all add: N_def)
  have G: "unat (grid_dim (hsp_size h)) = G"
    unfolding G_def N_def by (rule grid_dim_unat) (use N32 in \<open>simp add: N_def\<close>)
  have Gpos: "0 < G" unfolding G_def using pos tiles_cover(3) [of N] by (simp add: N_def)
  have GK: "G * 64 \<le> 2 ^ 32" unfolding G_def using tiles_cover(2) [of N] ub
    by (simp add: N_def)
  then have G31: "G < 2 ^ 31" by simp
  have NK: "N \<le> G * 64" unfolding G_def by (rule tiles_cover(1))
  from Gpos G have g0: "grid_dim (hsp_size h) \<noteq> 0" by (auto simp: unat_eq_0)
  have run: "run_threads (kernel_fill (to_device h) (\<lambda>_. v))
      (grid_threads (grid_dim (hsp_size h)) (word_of_nat TILE_WIDTH)) m
     = Inr (after_fill m a (min (G * 64) (min N (2 ^ 31))) v xs)"
    unfolding TILE_WIDTH_def of_nat_numeral grid_threads_linear G to_device_def a N_def
    by (rule run_threads_fill [OF x l _ GK]) (use N63 in \<open>simp add: N_def\<close>)
  have "min (G * 64) (min N (2 ^ 31)) = min N (2 ^ 31)" using NK by simp
  with run have run': "run_threads (kernel_fill (to_device h) (\<lambda>_. v))
      (grid_threads (grid_dim (hsp_size h)) (word_of_nat TILE_WIDTH)) m
     = Inr (after_fill m a (min N (2 ^ 31)) v xs)"
    by (simp only:)
  have l: "launch (grid_dim (hsp_size h)) (word_of_nat TILE_WIDTH)
             (kernel_fill (to_device h) (\<lambda>_. v)) m
     = Inr (cudaSuccess, after_fill m a (min N (2 ^ 31)) v xs)"
    unfolding launch_def run' using g0 G31 by (simp add: G)
  show ?thesis
    unfolding device_fill_def Let_def l N_def [symmetric]
    by (simp add: kernel_check_error_def cudaDeviceSynchronize_def)
qed

lemma after_fill_fields:
  "elem_bytes (after_fill m a j v xs) = elem_bytes m"
  "host_mem (after_fill m a j v xs) = host_mem m"
  "host_avail (after_fill m a j v xs) = host_avail m"
  "host_next (after_fill m a j v xs) = host_next m"
  "dev_mem (after_fill m a j v xs) a = Some (replicate j v @ drop j xs)"
  "dev_stores (after_fill m a j v xs) = dev_stores m @ map (Pair a) [0..<j]"
  by (simp_all add: after_fill_def)

lemma store_elem_frame:
  assumes "store_elem p i v m = Inr m'"
  shows "host_mem m' = host_mem m \<and> host_avail m' = host_avail m \<and> host_next m' = host_next m
    \<and> host_freed m' = host_freed m \<and> elem_bytes m' = elem_bytes m"
  using assms by (auto simp: store_elem_def split: option.splits if_splits)

lemma kernel_fill_frame:
  assumes "kernel_fill buffer func t m = Inr m'"
  shows "host_mem m' = host_mem m \<and> host_avail m' = host_avail m \<and> host_next m' = host_next m
    \<and> host_freed m' = host_freed m \<and> elem_bytes m' = elem_bytes m"
  using assms store_elem_frame
  by (fastforce simp: kernel_fill_def Let_def split: prod.splits if_splits)

lemma run_threads_frame:
  assumes "run_threads (kernel_fill buffer func) ts m = Inr m'"
  shows "host_mem m' = host_mem m \<and> host_avail m' = host_avail m \<and> host_next m' = host_next m
    \<and> host_freed m' = host_freed m \<and> elem_bytes m' = elem_bytes m"
  using assms
proof (induction ts arbitrary: m)
  case Nil
  then show ?case by simp
next
  case (Cons t ts)
  then obtain m1 where 1: "kernel_fill buffer func t m = Inr m1"
    and 2: "run_threads (kernel_fill buffer func) ts m1 = Inr m'"
    by (auto split: sum.splits)
  from Cons.IH [OF 2] kernel_fill_frame [OF 1] show ?case by simp
qed

lemma device_fill_frame:
  assumes "device_fill v h m = Inr (h', m')"
  shows "h' = h \<and> host_mem m' = host_mem m \<and> host_avail m' = host_avail m
    \<and> host_next m' = host_next m \<and> host_freed m' = host_freed m"
proof -
  from assms obtain m1 where
    "run_threads (kernel_fill (to_device h) (\<lambda>_. v))
       (grid_threads (grid_dim (hsp_size h)) (word_of_nat TILE_WIDTH)) m = Inr m1"
    and "h' = h" and "m' = m1"
    by (auto simp: device_fill_def Let_def launch_def kernel_check_error_def
          cudaDeviceSynchronize_def split: if_splits sum.splits)
  with run_threads_frame show ?thesis by blast
qed

lemma fill_download_general:
  assumes v: "valid_buffer h m" and r: "mirror_ready h m"
    and pos: "0 < unat (hsp_size h)" and ub: "unat (hsp_size h) + 63 \<le> 2 ^ 32"
    and d: "dev_block m (hsp_data h) = Some xs"
  shows "\<exists>m1 p h2 m2. device_fill val h m = Inr (h, m1) \<and> download h m1 = Inr (p, h2, m2)
     \<and> p = hsp_host_data h2 \<and> p \<noteq> None \<and> hsp_size h2 = hsp_size h
     \<and> host_block m2 p
         = Some (replicate (min (unat (hsp_size h)) (2 ^ 31)) val
                 @ drop (min (unat (hsp_size h)) (2 ^ 31)) xs)"
proof -
  define L where "L = min (unat (hsp_size h)) (2 ^ 31 :: nat)"
  from v d obtain a where a: "hsp_data h = Some a" and x: "dev_mem m a = Some xs"
    and l: "length xs = unat (hsp_size h)"
    by (auto simp: valid_buffer_def dev_block_def split: option.splits)
  define m1 where "m1 = after_fill m a L val xs"
  have f: "device_fill val h m = Inr (h, m1)"
    unfolding m1_def L_def by (rule device_fill_result [OF a x l pos ub])
  have e1: "0 < elem_bytes m1" and w1: "unat (hsp_size h) * elem_bytes m1 < 2 ^ 64"
    using v by (simp_all add: m1_def after_fill_fields valid_buffer_def)
  have d1: "dev_mem m1 a = Some (replicate L val @ drop L xs)"
    by (simp add: m1_def after_fill_fields)
  have l1: "length (replicate L val @ drop L xs) = unat (hsp_size h)"
    using l by (simp add: L_def)
  have v1: "hsp_host_data h = None
        \<or> map_option length (host_block m1 (hsp_host_data h)) = Some (unat (hsp_size h))"
    using v by (auto simp: valid_buffer_def host_block_def m1_def after_fill_fields
        split: option.splits)
  have r1: "mirror_ready h m1"
    using r by (simp add: mirror_ready_def m1_def after_fill_fields)
  from download_result [OF e1 w1 a d1 l1 v1 r1] f show ?thesis
    unfolding L_def by blast
qed

lemma download_present:
  assumes e: "0 < elem_bytes m" and w: "unat (hsp_size h) * elem_bytes m < 2 ^ 64"
    and d: "hsp_data h = Some a" "dev_mem m a = Some ys" "length ys = unat (hsp_size h)"
    and b: "hsp_host_data h = Some b"
      "map_option length (host_mem m b) = Some (unat (hsp_size h))"
  shows "download h m = Inr (Some b, h, m\<lparr>host_mem := (host_mem m)(b \<mapsto> ys)\<rparr>)"
  using assms
  by (simp add: download_def cudaMemcpyDeviceToHost_def byte_count_exact read_range_live
      write_range_whole cuda_safe_call_def)

lemma roundtrip_general:
  assumes v: "valid_buffer h m" and mir: "host_block m (hsp_host_data h) = Some ys"
    and pos: "0 < unat (hsp_size h)" and ub: "unat (hsp_size h) + 63 \<le> 2 ^ 32"
  shows "\<exists>m1 m2 p h2 m3. upload h m = Inr (h, m1) \<and> device_fill val h m1 = Inr (h, m2)
     \<and> host_mem m2 = host_mem m
     \<and> dev_block m2 (hsp_data h)
         = Some (replicate (min (unat (hsp_size h)) (2 ^ 31)) val
                 @ drop (min (unat (hsp_size h)) (2 ^ 31)) ys)
     \<and> download h m2 = Inr (p, h2, m3) \<and> p = hsp_host_data h
     \<and> host_block m3 p
         = Some (replicate (min (unat (hsp_size h)) (2 ^ 31)) val
                 @ drop (min (unat (hsp_size h)) (2 ^ 31)) ys)"
proof -
  define L where "L = min (unat (hsp_size h)) (2 ^ 31 :: nat)"
  from v have e: "0 < elem_bytes m" and w: "unat (hsp_size h) * elem_bytes m < 2 ^ 64"
    by (simp_all add: valid_buffer_def)
  from v obtain a where a: "hsp_data h = Some a"
    and la: "map_option length (dev_mem m a) = Some (unat (hsp_size h))"
    by (auto simp: valid_buffer_def dev_block_def split: option.splits)
  from mir obtain b where b: "hsp_host_data h = Some b" and yb: "host_mem m b = Some ys"
    by (auto simp: host_block_def split: option.splits)
  from v b yb have ly: "length ys = unat (hsp_size h)"
    by (auto simp: valid_buffer_def host_block_def)
  define m1 where "m1 = m\<lparr>dev_mem := (dev_mem m)(a \<mapsto> ys)\<rparr>"
  have u: "upload h m = Inr (h, m1)"
    unfolding m1_def by (rule upload_result [OF e w a la b yb ly])
  have x1: "dev_mem m1 a = Some ys" by (simp add: m1_def)
  define m2 where "m2 = after_fill m1 a L val ys"
  have f: "device_fill val h m1 = Inr (h, m2)"
    unfolding m2_def L_def by (rule device_fill_result [OF a x1 ly pos ub])
  have hm: "host_mem m2 = host_mem m" by (simp add: m2_def m1_def after_fill_fields)
  have d2: "dev_mem m2 a = Some (replicate L val @ drop L ys)"
    by (simp add: m2_def after_fill_fields)
  have l2: "length (replicate L val @ drop L ys) = unat (hsp_size h)"
    using ly by (simp add: L_def)
  have e2: "0 < elem_bytes m2" and w2: "unat (hsp_size h) * elem_bytes m2 < 2 ^ 64"
    using e w by (simp_all add: m2_def m1_def after_fill_fields)
  have b2: "map_option length (host_mem m2 b) = Some (unat (hsp_size h))"
    using yb ly by (simp add: hm)
  define m3 where "m3 = m2\<lparr>host_mem := (host_mem m2)(b \<mapsto> replicate L val @ drop L ys)\<rparr>"
  have dl: "download h m2 = Inr (Some b, h, m3)"
    unfolding m3_def by (rule download_present [OF e2 w2 a d2 l2 b b2])
  have h3: "host_block m3 (Some b) = Some (replicate L val @ drop L ys)"
    by (simp add: m3_def host_block_def)
  have db: "dev_block m2 (hsp_data h) = Some (replicate L val @ drop L ys)"
    using a d2 by (simp add: dev_block_def)
  from u f hm db dl h3 b show ?thesis
    unfolding L_def by (intro exI [of _ m1] exI [of _ m2] exI [of _ "Some b"] exI [of _ h]
        exI [of _ m3] conjI) simp_all
qed

lemma kernel_is_fill: "kernel buffer = kernel_fill buffer (\<lambda>_. 0)"
  by (rule ext)+ (simp add: kernel_def kernel_fill_def)

lemma to_bench_is_fill: "to_bench = device_fill 0"
  by (rule ext)+ (simp add: to_bench_def device_fill_def Let_def kernel_is_fill)

lemma after_fill_whole:
  "length xs = n \<Longrightarrow> after_fill m a n v xs
     = m\<lparr>dev_mem := (dev_mem m)(a \<mapsto> replicate n v),
         dev_stores := dev_stores m @ map (Pair a) [0..<n]\<rparr>"
  by (simp add: after_fill_def)

lemma after_fill_not_stored:
  assumes "(a, j) \<notin> set (dev_stores m)"
  shows "(a, j) \<notin> set (dev_stores (after_fill m a j v xs))"
  using assms by (auto simp: after_fill_def)

lemma in_set_mapI: "k \<in> set ks \<Longrightarrow> f k \<in> set (map f ks)"
  by simp

lemma partial_fill_differs:
  assumes "j < length xs" and "xs ! j \<noteq> v"
  shows "replicate j v @ drop j xs \<noteq> replicate (length xs) v"
    and "(replicate j v @ drop j xs) ! j = xs ! j"
proof -
  show n: "(replicate j v @ drop j xs) ! j = xs ! j"
    using assms(1) by (simp add: nth_append)
  show "replicate j v @ drop j xs \<noteq> replicate (length xs) v"
  proof
    assume "replicate j v @ drop j xs = replicate (length xs) v"
    then have "(replicate j v @ drop j xs) ! j = replicate (length xs) v ! j" by simp
    with n assms show False by simp
  qed
qed

section \<open>Facts about the large buffer\<close>

text \<open>The buffer of \<open>2 ^ 31 + 1\<close> elements is a valid buffer, within the limits of a launch.\<close>

lemma big_count_unat: "unat big_count = 2 ^ 31 + 1"
  by (simp add: big_count_def)

lemma big_buffer_eq: "big_buffer = Inr (big_handle, big_machine)"
proof -
  define N where "N = unat big_count"
  have N: "N * 4 < 2 ^ 64" "N * 4 \<le> 2 ^ 40" by (simp_all add: N_def big_count_unat)
  define m0 :: "c_int machine" where "m0 = init_machine 4 (2 ^ 40) 0"
  have c: "construct big_count m0
    = Inr (\<lparr>hsp_data = Some 0, hsp_host_data = None, hsp_size = big_count, hsp_counter = 1\<rparr>,
           m0\<lparr>dev_mem := [0 \<mapsto> map (\<lambda>i. 0) [0..<N]],
              dev_avail := 2 ^ 40 - N * 4, dev_next := 1\<rparr>)"
    using construct_result [of m0 big_count] N
    by (simp add: m0_def init_machine_def N_def)
  have z: "map (\<lambda>i. 0 :: c_int) [0..<N] = replicate N 0"
    by (simp add: map_replicate_const)
  have s: "map ((\<lambda>arg. 7 :: c_int) \<circ> (\<lambda>i. 0 :: c_int)) [0..<N] = replicate N 7"
    by (simp add: comp_def map_replicate_const)
  define h1 where "h1 = \<lparr>hsp_data = Some 0, hsp_host_data = None, hsp_size = big_count,
      hsp_counter = 1\<rparr>"
  define m1 where "m1 = m0\<lparr>dev_mem := [0 \<mapsto> replicate N 0],
              dev_avail := 2 ^ 40 - N * 4, dev_next := 1\<rparr>"
  have f: "host_fill 7 h1 m1 = Inr (big_handle, big_machine)"
    unfolding host_fill_def
    using host_map_absent [of h1 m1 "\<lambda>arg. 7"] N
    by (simp add: h1_def m1_def m0_def init_machine_def N_def [symmetric] s big_handle_def
        big_machine_def)
  from c f show ?thesis
    unfolding big_buffer_def m0_def [symmetric] z h1_def [symmetric] m1_def [symmetric]
    by simp
qed

lemma big_valid: "valid_buffer big_handle big_machine"
  by (simp add: valid_buffer_def big_handle_def big_machine_def init_machine_def
      dev_block_def host_block_def big_count_unat)

lemma big_ready: "mirror_ready big_handle big_machine"
  by (simp add: mirror_ready_def big_handle_def)

lemma big_bounds:
  "0 < unat (hsp_size big_handle)" "unat (hsp_size big_handle) + 63 \<le> 2 ^ 32"
  "min (unat (hsp_size big_handle)) (2 ^ 31) = 2 ^ 31"
  "hsp_size big_handle = big_count"
  by (simp_all add: big_handle_def big_count_unat)

lemma big_device:
  "dev_block big_machine (hsp_data big_handle) = Some (replicate (unat big_count) 0)"
  by (simp add: big_handle_def big_machine_def dev_block_def)

section \<open>Default construction and destruction\<close>

text \<open>
  C10. A default-constructed handle has element count 0, a null device pointer, a null
  host-mirror pointer and share count 1. Destroying it brings the count to zero, calls
  the device free on the null pointer, which does nothing, and skips the host free: the
  destructor returns and the machine, with every live allocation, is as it was.
\<close>

theorem default_handle_destroy_safe:
  "hsp_size default_handle = 0 \<and> hsp_data default_handle = None
   \<and> hsp_host_data default_handle = None \<and> hsp_counter default_handle = 1
   \<and> hsp_counter default_handle - 1 = 0
   \<and> cudaFree (hsp_data default_handle) m = (cudaSuccess, m)
   \<and> destroy default_handle m = Inr m"
  by (simp add: default_handle_def destroy_def cudaFree_def cuda_safe_call_def)

section \<open>Shared ownership\<close>

text \<open>
  C1. The claim: the allocation is freed when the last handle that shares it is
  destroyed, so after \<open>b\<close> is copy-constructed from \<open>a\<close> and \<open>a\<close> is destroyed, the
  allocation is still valid for \<open>b\<close>. The code at this input: \<open>a\<close> is constructed with 8
  elements and has count 1; the copy \<open>b\<close> has the same device pointer and count 2, in its
  own field, and the count of \<open>a\<close> is still 1. Destroying \<open>a\<close> brings that count to 0 and
  frees the device allocation: the pointer of the living \<open>b\<close> dangles, its \<open>download()\<close>
  is terminated by the error check, and destroying \<open>b\<close> afterwards frees nothing.
\<close>

theorem copy_then_destroy_original_frees:
  "\<exists>a m1 m2. construct 8 (init_machine 4 1024 (0::c_int)) = Inr (a, m1)
     \<and> hsp_counter a = 1 \<and> hsp_counter (copy_construct a) = 2
     \<and> hsp_data (copy_construct a) = hsp_data a
     \<and> map_option length (dev_block m1 (hsp_data a)) = Some 8
     \<and> destroy a m1 = Inr m2
     \<and> dev_block m2 (hsp_data (copy_construct a)) = None
     \<and> dev_freed m2 = [0]
     \<and> download (copy_construct a) m2 = Inl (Terminated cudaErrorInvalidValue)
     \<and> destroy (copy_construct a) m2 = Inr m2"
  by (simp add: construct_def device_allocate_def byte_count_def cudaMalloc_def
        init_machine_def default_handle_def cuda_safe_call_def Let_def copy_construct_def
        dev_block_def destroy_def cudaFree_def download_def host_allocate0_def
        host_allocate_def new_array_def cudaMemcpyDeviceToHost_def read_range_def)

section \<open>Move assignment\<close>

text \<open>
  C5. The claim: move assignment replaces the device pointer and the host-mirror
  pointer with those of the other handle and sets the count to the other's plus one.
  The code at this input: the handle has device pointer 0, mirror 0 and 4 elements, the
  other one device pointer 1, mirror 1 and 8 elements. After the assignment the device
  pointer, the element count and the count are the other's (plus one), and the mirror
  pointer is still the handle's old one, of 4 elements. The move constructor, on the
  same other handle, takes the mirror pointer too.
\<close>

theorem assign_keeps_host_mirror:
  "assign \<lparr>hsp_data = Some 0, hsp_host_data = Some 0, hsp_size = 4, hsp_counter = 1\<rparr>
          \<lparr>hsp_data = Some 1, hsp_host_data = Some 1, hsp_size = 8, hsp_counter = 1\<rparr>
     = \<lparr>hsp_data = Some 1, hsp_host_data = Some 0, hsp_size = 8, hsp_counter = 2\<rparr>
   \<and> move_construct \<lparr>hsp_data = Some 1, hsp_host_data = Some 1, hsp_size = 8, hsp_counter = 1\<rparr>
     = \<lparr>hsp_data = Some 1, hsp_host_data = Some 1, hsp_size = 8, hsp_counter = 2\<rparr>"
  by (simp add: assign_def move_construct_def)

section \<open>Host-side operations\<close>

text \<open>
  C8. For a buffer whose host mirror is allocated and holds any array \<open>xs\<close> of its
  \<open>size_\<close> elements, \<open>host_map\<close> with the identity function returns, and the handle
  and the whole machine, the mirror's contents among it, are as before.
\<close>

theorem host_map_identity:
  assumes "hsp_host_data h = Some a" and "host_mem m a = Some xs"
    and "length xs = unat (hsp_size h)"
  shows "host_map (\<lambda>x. x) h m = Inr (h, m) \<and> host_block m (hsp_host_data h) = Some xs"
  using assms
  by (simp add: host_map_def std_transform_def read_range_def write_range_def host_block_def
        map_upd_triv)

theorem host_map_identity_witness:
  "host_map (\<lambda>x. x)
     \<lparr>hsp_data = None, hsp_host_data = Some 0, hsp_size = 3, hsp_counter = 1\<rparr>
     ((init_machine 4 1024 (0::c_int))\<lparr>host_mem := [0 \<mapsto> [1, 2, 3]]\<rparr>)
   = Inr (\<lparr>hsp_data = None, hsp_host_data = Some 0, hsp_size = 3, hsp_counter = 1\<rparr>,
          (init_machine 4 1024 (0::c_int))\<lparr>host_mem := [0 \<mapsto> [1, 2, 3]]\<rparr>)
   \<and> host_block ((init_machine 4 1024 (0::c_int))\<lparr>host_mem := [0 \<mapsto> [1, 2, 3]]\<rparr>) (Some 0)
     = Some [1, 2, 3]"
  using host_map_identity
    [of "\<lparr>hsp_data = None, hsp_host_data = Some 0, hsp_size = 3, hsp_counter = 1\<rparr>" 0
        "(init_machine 4 1024 (0::c_int))\<lparr>host_mem := [0 \<mapsto> [1, 2, 3]]\<rparr>" "[1, 2, 3]"]
  by simp

text \<open>
  C9. When \<open>host_allocate(n)\<close> returns, the host mirror is allocated and holds exactly
  \<open>n\<close> elements, and the element count of the handle is \<open>n\<close>. The form without argument
  is \<open>host_allocate\<close> of the current element count.
\<close>

theorem host_allocate_size:
  assumes "host_allocate n h m = Inr (h', m')"
  shows "hsp_size h' = n \<and> hsp_host_data h' \<noteq> None
         \<and> map_option length (host_block m' (hsp_host_data h')) = Some (unat n)
         \<and> host_allocate0 h m = host_allocate (hsp_size h) h m"
  using assms
  by (auto simp: host_allocate0_def host_allocate_def new_array_def host_block_def Let_def
           split: if_splits)

theorem host_allocate_size_witness:
  "\<exists>h' m'. host_allocate 5 default_handle (init_machine 4 1024 (0::c_int)) = Inr (h', m')
     \<and> hsp_size h' = 5 \<and> hsp_host_data h' \<noteq> None
     \<and> map_option length (host_block m' (hsp_host_data h')) = Some 5"
proof -
  have "\<exists>h' m'. host_allocate 5 default_handle (init_machine 4 1024 (0::c_int)) = Inr (h', m')"
    by (simp add: host_allocate_def new_array_def init_machine_def Let_def)
  then obtain h' m'
    where e: "host_allocate 5 default_handle (init_machine 4 1024 (0::c_int)) = Inr (h', m')"
    by blast
  from host_allocate_size [OF e] e show ?thesis by simp
qed

section \<open>Device fill\<close>

text \<open>
  C2, as amended. For every buffer of element count \<open>N\<close> with \<open>0 < N < 2 ^ 31\<close> and every
  value, \<open>device_fill\<close> followed by \<open>download()\<close> returns, and the host mirror is then an
  array of exactly \<open>N\<close> copies of the value. The buffer is valid and the host has room
  for a mirror that is still to be allocated.
\<close>

theorem device_fill_download:
  assumes v: "valid_buffer h m" and r: "mirror_ready h m"
    and pos: "0 < unat (hsp_size h)" and ub: "unat (hsp_size h) < 2 ^ 31"
  shows "\<exists>m1 p h2 m2. device_fill val h m = Inr (h, m1) \<and> download h m1 = Inr (p, h2, m2)
     \<and> p = hsp_host_data h2 \<and> p \<noteq> None \<and> hsp_size h2 = hsp_size h
     \<and> host_block m2 p = Some (replicate (unat (hsp_size h)) val)"
proof -
  from v obtain xs where d: "dev_block m (hsp_data h) = Some xs"
    and l: "length xs = unat (hsp_size h)"
    by (auto simp: valid_buffer_def)
  from ub have ub': "unat (hsp_size h) + 63 \<le> 2 ^ 32" by simp
  from ub have "min (unat (hsp_size h)) (2 ^ 31) = unat (hsp_size h)" by simp
  with fill_download_general [OF v r pos ub' d, of val] l show ?thesis by simp
qed

theorem device_fill_download_witness:
  "valid_buffer unmirrored_handle unmirrored_machine
   \<and> mirror_ready unmirrored_handle unmirrored_machine
   \<and> (\<exists>m1 p h2 m2. device_fill 42 unmirrored_handle unmirrored_machine
          = Inr (unmirrored_handle, m1)
        \<and> download unmirrored_handle m1 = Inr (p, h2, m2)
        \<and> host_block m2 p = Some [42, 42, 42, 42, 42, 42, 42, 42])"
proof -
  have v: "valid_buffer unmirrored_handle unmirrored_machine"
    by (simp add: valid_buffer_def unmirrored_handle_def unmirrored_machine_def
        init_machine_def dev_block_def)
  have r: "mirror_ready unmirrored_handle unmirrored_machine"
    by (simp add: mirror_ready_def unmirrored_handle_def unmirrored_machine_def
        init_machine_def)
  have pos: "0 < unat (hsp_size unmirrored_handle)"
    and ub: "unat (hsp_size unmirrored_handle) < 2 ^ 31"
    by (simp_all add: unmirrored_handle_def)
  have "unat (hsp_size unmirrored_handle) = 8"
    by (simp add: unmirrored_handle_def)
  then have n: "replicate (unat (hsp_size unmirrored_handle)) (42 :: c_int)
      = [42, 42, 42, 42, 42, 42, 42, 42]"
    by (simp add: eval_nat_numeral)
  from device_fill_download [OF v r pos ub, of 42] v r show ?thesis
    unfolding n by blast
qed

text \<open>
  C2, as stated, fails on the buffer of \<open>2 ^ 31 + 1\<close> elements: \<open>device_fill(42)\<close> and
  \<open>download()\<close> both return, and the mirror is not \<open>2 ^ 31 + 1\<close> copies of 42. The
  thread of element \<open>2 ^ 31\<close> computes its \<open>int\<close> index as \<open>- 2 ^ 31\<close>, which is not below
  the element count once converted for the comparison, and stores nothing.
\<close>

theorem device_fill_download_counterexample:
  "\<exists>h m m1 p h2 m2. big_buffer = Inr (h, m) \<and> unat (hsp_size h) = 2 ^ 31 + 1
     \<and> device_fill 42 h m = Inr (h, m1)
     \<and> download h m1 = Inr (p, h2, m2)
     \<and> host_block m2 p \<noteq> Some (replicate (unat (hsp_size h)) 42)"
proof -
  have n: "unat (hsp_size big_handle) = 2 ^ 31 + 1"
    by (simp add: big_handle_def big_count_unat)
  define xs :: "c_int list" where "xs = replicate (unat big_count) 0"
  have l: "length xs = unat big_count" by (simp add: xs_def)
  have j: "2 ^ 31 < length xs" by (simp add: l big_count_unat)
  have "xs ! (2 ^ 31) = 0" unfolding xs_def by (rule nth_replicate) (simp add: big_count_unat)
  then have x: "xs ! (2 ^ 31) \<noteq> 42" by simp
  have ne: "replicate (2 ^ 31) 42 @ drop (2 ^ 31) xs \<noteq> replicate (unat big_count) 42"
    using partial_fill_differs(1) [OF j x] unfolding l .
  from fill_download_general [OF big_valid big_ready big_bounds(1,2) big_device, of 42]
  obtain m1 p h2 m2 where f: "device_fill 42 big_handle big_machine = Inr (big_handle, m1)"
    and d: "download big_handle m1 = Inr (p, h2, m2)"
    and hb: "host_block m2 p = Some (replicate (2 ^ 31) 42 @ drop (2 ^ 31) xs)"
    unfolding big_bounds(3) xs_def by blast
  have "host_block m2 p \<noteq> Some (replicate (unat big_count) 42)"
  proof
    assume "host_block m2 p = Some (replicate (unat big_count) 42)"
    with hb have "replicate (2 ^ 31) 42 @ drop (2 ^ 31) xs = replicate (unat big_count) 42"
      by (simp only: option.inject)
    with ne show False ..
  qed
  then have "host_block m2 p \<noteq> Some (replicate (unat (hsp_size big_handle)) 42)"
    unfolding big_bounds(4) .
  with big_buffer_eq n f d show ?thesis by (intro exI conjI)
qed

text \<open>
  C3, as amended. \<open>device_fill\<close> has no host-side effect: whenever it returns, for any
  handle and machine, the handle with its mirror pointer and the whole host heap are as
  before. And for a valid buffer of \<open>N\<close> elements with \<open>0 < N < 2 ^ 31\<close> whose mirror holds
  any data \<open>ys\<close>, \<open>upload()\<close>, \<open>device_fill\<close> of a value and \<open>download()\<close> return in turn;
  the fill writes the value into every device element and leaves the mirror alone, and
  after the download the mirror is \<open>N\<close> copies of the value.
\<close>

theorem device_fill_host_untouched:
  "(device_fill val h m = Inr (h', m') \<longrightarrow>
      h' = h \<and> hsp_host_data h' = hsp_host_data h \<and> host_mem m' = host_mem m)
   \<and> (valid_buffer h m \<and> host_block m (hsp_host_data h) = Some ys
        \<and> 0 < unat (hsp_size h) \<and> unat (hsp_size h) < 2 ^ 31 \<longrightarrow>
      (\<exists>m1 m2 p h2 m3. upload h m = Inr (h, m1) \<and> device_fill val h m1 = Inr (h, m2)
         \<and> host_mem m2 = host_mem m
         \<and> dev_block m2 (hsp_data h) = Some (replicate (unat (hsp_size h)) val)
         \<and> download h m2 = Inr (p, h2, m3) \<and> p = hsp_host_data h
         \<and> host_block m3 p = Some (replicate (unat (hsp_size h)) val)))"
proof (rule conjI; rule impI)
  assume "device_fill val h m = Inr (h', m')"
  from device_fill_frame [OF this]
  show "h' = h \<and> hsp_host_data h' = hsp_host_data h \<and> host_mem m' = host_mem m" by simp
next
  assume A: "valid_buffer h m \<and> host_block m (hsp_host_data h) = Some ys
        \<and> 0 < unat (hsp_size h) \<and> unat (hsp_size h) < 2 ^ 31"
  then have v: "valid_buffer h m" and mir: "host_block m (hsp_host_data h) = Some ys"
    and pos: "0 < unat (hsp_size h)" and ub: "unat (hsp_size h) + 63 \<le> 2 ^ 32"
    and mn: "min (unat (hsp_size h)) (2 ^ 31) = unat (hsp_size h)"
    by simp_all
  from v mir have ly: "length ys = unat (hsp_size h)"
    by (auto simp: valid_buffer_def host_block_def)
  then have dr: "drop (unat (hsp_size h)) ys = []" by simp
  from roundtrip_general [OF v mir pos ub, of val]
  show "\<exists>m1 m2 p h2 m3. upload h m = Inr (h, m1) \<and> device_fill val h m1 = Inr (h, m2)
         \<and> host_mem m2 = host_mem m
         \<and> dev_block m2 (hsp_data h) = Some (replicate (unat (hsp_size h)) val)
         \<and> download h m2 = Inr (p, h2, m3) \<and> p = hsp_host_data h
         \<and> host_block m3 p = Some (replicate (unat (hsp_size h)) val)"
    unfolding mn dr append_Nil2 .
qed

theorem device_fill_host_untouched_witness:
  "valid_buffer mirrored_handle mirrored_machine
   \<and> host_block mirrored_machine (hsp_host_data mirrored_handle) = Some [4, 5, 6]
   \<and> (\<exists>m1 m2 p h2 m3. upload mirrored_handle mirrored_machine = Inr (mirrored_handle, m1)
        \<and> device_fill 9 mirrored_handle m1 = Inr (mirrored_handle, m2)
        \<and> host_block m2 (hsp_host_data mirrored_handle) = Some [4, 5, 6]
        \<and> dev_block m2 (hsp_data mirrored_handle) = Some [9, 9, 9]
        \<and> download mirrored_handle m2 = Inr (p, h2, m3)
        \<and> host_block m3 p = Some [9, 9, 9])"
proof -
  have v: "valid_buffer mirrored_handle mirrored_machine"
    by (simp add: valid_buffer_def mirrored_handle_def mirrored_machine_def
        init_machine_def dev_block_def host_block_def)
  have h: "host_block mirrored_machine (hsp_host_data mirrored_handle) = Some [4, 5, 6]"
    by (simp add: mirrored_handle_def mirrored_machine_def init_machine_def host_block_def)
  have n: "unat (hsp_size mirrored_handle) = 3" by (simp add: mirrored_handle_def)
  have r: "replicate (unat (hsp_size mirrored_handle)) (9 :: c_int) = [9, 9, 9]"
    unfolding n by (simp add: eval_nat_numeral)
  have b: "host_mem mirrored_machine 0 = Some [4, 5, 6]"
    "hsp_host_data mirrored_handle = Some 0"
    by (simp_all add: mirrored_handle_def mirrored_machine_def init_machine_def)
  have pre: "valid_buffer mirrored_handle mirrored_machine
      \<and> host_block mirrored_machine (hsp_host_data mirrored_handle) = Some [4, 5, 6]
      \<and> 0 < unat (hsp_size mirrored_handle) \<and> unat (hsp_size mirrored_handle) < 2 ^ 31"
    using v h by (simp add: n)
  note T = device_fill_host_untouched [of 9 mirrored_handle mirrored_machine
      mirrored_handle mirrored_machine "[4, 5, 6]"]
  from T [THEN conjunct2, THEN mp, OF pre]
  obtain m1 m2 p h2 m3 where
    "upload mirrored_handle mirrored_machine = Inr (mirrored_handle, m1)"
    "device_fill 9 mirrored_handle m1 = Inr (mirrored_handle, m2)"
    "host_mem m2 = host_mem mirrored_machine"
    "dev_block m2 (hsp_data mirrored_handle) = Some [9, 9, 9]"
    "download mirrored_handle m2 = Inr (p, h2, m3)"
    "host_block m3 p = Some [9, 9, 9]"
    unfolding r by blast
  with v h b show ?thesis by (auto simp: host_block_def)
qed

text \<open>
  C3, as stated, fails on the buffer of \<open>2 ^ 31 + 1\<close> elements whose mirror holds sevens:
  after \<open>upload()\<close>, \<open>device_fill(42)\<close> and \<open>download()\<close>, the device element \<open>2 ^ 31\<close> was
  not written by the fill, and the mirror holds the uploaded 7 there.
\<close>

theorem device_fill_host_untouched_counterexample:
  "\<exists>h m m1 m2 p h2 m3 ds ys. big_buffer = Inr (h, m) \<and> unat (hsp_size h) = 2 ^ 31 + 1
     \<and> upload h m = Inr (h, m1)
     \<and> device_fill 42 h m1 = Inr (h, m2)
     \<and> dev_block m2 (hsp_data h) = Some ds \<and> ds ! (2 ^ 31) = 7
     \<and> download h m2 = Inr (p, h2, m3)
     \<and> host_block m3 p = Some ys \<and> ys ! (2 ^ 31) = 7"
proof -
  have sz: "unat (hsp_size big_handle) = 2 ^ 31 + 1"
    by (simp add: big_handle_def big_count_unat)
  define ys :: "c_int list" where "ys = replicate (unat big_count) 7"
  have l: "length ys = unat big_count" by (simp add: ys_def)
  have j: "2 ^ 31 < length ys" by (simp add: l big_count_unat)
  have "ys ! (2 ^ 31) = 7" unfolding ys_def by (rule nth_replicate) (simp add: big_count_unat)
  then have x: "ys ! (2 ^ 31) \<noteq> 42" by simp
  have n: "(replicate (2 ^ 31) 42 @ drop (2 ^ 31) ys) ! (2 ^ 31) = 7"
    using partial_fill_differs(2) [OF j x] \<open>ys ! (2 ^ 31) = 7\<close> by (simp only:)
  have mir: "host_block big_machine (hsp_host_data big_handle) = Some ys"
    by (simp add: big_handle_def big_machine_def host_block_def ys_def)
  from roundtrip_general [OF big_valid mir big_bounds(1,2), of 42]
  obtain m1 m2 p h2 m3 where "upload big_handle big_machine = Inr (big_handle, m1)"
    "device_fill 42 big_handle m1 = Inr (big_handle, m2)"
    "dev_block m2 (hsp_data big_handle) = Some (replicate (2 ^ 31) 42 @ drop (2 ^ 31) ys)"
    "download big_handle m2 = Inr (p, h2, m3)"
    "host_block m3 p = Some (replicate (2 ^ 31) 42 @ drop (2 ^ 31) ys)"
    unfolding big_bounds(3) by blast
  with big_buffer_eq sz n show ?thesis by (intro exI conjI)
qed

text \<open>
  C6. The claim: after constructing with size 0, \<open>device_fill\<close> performs no launch and
  completes without failure. The code at this input, on any machine: the constructor
  returns a handle of 0 elements; \<open>device_fill\<close> computes \<open>gx = 0\<close>, a grid without any
  thread, and issues the launch all the same, there is no guard on the size; the runtime
  rejects the empty grid, nothing is written, and \<open>kernel_check_error\<close> terminates the
  process.
\<close>

theorem zero_size_fill_terminated:
  "\<exists>h m1. construct 0 m = Inr (h, m1) \<and> hsp_size h = 0
     \<and> map_option length (dev_block m1 (hsp_data h)) = Some 0
     \<and> grid_dim (hsp_size h) = 0
     \<and> grid_threads (grid_dim (hsp_size h)) (word_of_nat TILE_WIDTH) = []
     \<and> launch (grid_dim (hsp_size h)) (word_of_nat TILE_WIDTH)
            (kernel_fill (to_device h) (\<lambda>_. val)) m1
          = Inr (cudaErrorInvalidConfiguration, m1)
     \<and> device_fill val h m1 = Inl (Terminated cudaErrorInvalidConfiguration)"
  by (simp add: construct_def device_allocate_def byte_count_def cudaMalloc_def
      cuda_safe_call_def default_handle_def Let_def dev_block_def grid_dim_def TILE_WIDTH_def
      grid_threads_def launch_def device_fill_def kernel_check_error_def)

section \<open>Tiles and bounds\<close>

text \<open>
  C7, as amended. For a launch over a buffer of \<open>N\<close> elements with \<open>0 < N < 2 ^ 31\<close>: the
  grid has \<open>(N + 63) div 64\<close> tiles, the least number of tiles of 64 that covers \<open>N\<close>; its
  threads are 64 for each tile, thread \<open>k mod 64\<close> of tile \<open>k div 64\<close> for every \<open>k\<close> below 64
  times the tiles; such a thread computes the index \<open>k\<close>; in any state of the device
  allocation it stores exactly element \<open>k\<close> when \<open>k < N\<close> and does nothing at all
  otherwise; and the whole launch stores every element \<open>0..<N\<close> exactly once, in the log
  of stores, and nothing else. \<open>to_bench\<close> with its \<open>kernel\<close> is the same launch with the
  value 0.
\<close>

theorem launch_tiles_and_bounds:
  fixes m :: "'a machine" and func :: "unit \<Rightarrow> 'a"
  assumes a: "hsp_data h = Some a" and x: "dev_mem m a = Some xs"
    and l: "length xs = unat (hsp_size h)"
    and pos: "0 < unat (hsp_size h)" and ub: "unat (hsp_size h) < 2 ^ 31"
  shows "unat (grid_dim (hsp_size h)) = (unat (hsp_size h) + 63) div 64
    \<and> unat (hsp_size h) \<le> unat (grid_dim (hsp_size h)) * 64
    \<and> unat (grid_dim (hsp_size h)) * 64 < unat (hsp_size h) + 64
    \<and> grid_threads (grid_dim (hsp_size h)) (word_of_nat TILE_WIDTH)
        = map (\<lambda>k. (word_of_nat (k mod 64), word_of_nat (k div 64), 64))
              [0..<unat (grid_dim (hsp_size h)) * 64]
    \<and> (\<forall>k < unat (grid_dim (hsp_size h)) * 64.
          sint (thread_index (word_of_nat (k mod 64)) (word_of_nat (k div 64)) 64) = int k
          \<and> (\<forall>m' ys. dev_mem m' a = Some ys \<and> length ys = unat (hsp_size h) \<longrightarrow>
                kernel_fill (to_device h) func
                  (word_of_nat (k mod 64), word_of_nat (k div 64), 64) m'
                = (if k < unat (hsp_size h)
                   then Inr (m'\<lparr>dev_mem := (dev_mem m')(a \<mapsto> ys[k := func ()]),
                               dev_stores := dev_stores m' @ [(a, k)]\<rparr>)
                   else Inr m')))
    \<and> device_fill val h m
        = Inr (h, m\<lparr>dev_mem := (dev_mem m)(a \<mapsto> replicate (unat (hsp_size h)) val),
                    dev_stores := dev_stores m @ map (Pair a) [0..<unat (hsp_size h)]\<rparr>)
    \<and> to_bench = device_fill 0"
proof -
  define N where "N = unat (hsp_size h)"
  define G where "G = unat (grid_dim (hsp_size h))"
  have N32: "N \<le> 2 ^ 32" and N63: "N \<le> 2 ^ 63" and ub': "N + 63 \<le> 2 ^ 32"
    using ub by (simp_all add: N_def)
  have G: "G = (N + 63) div 64"
    unfolding G_def N_def by (rule grid_dim_unat) (use N32 in \<open>simp add: N_def\<close>)
  have c1: "N \<le> G * 64" unfolding G by (rule tiles_cover(1))
  have "G * 64 \<le> N + 63" unfolding G by (rule tiles_cover(2))
  then have c2: "G * 64 < N + 64" and GK: "G * 64 \<le> 2 ^ 31"
    using ub by (simp_all add: N_def)
  have ts: "grid_threads (grid_dim (hsp_size h)) (word_of_nat TILE_WIDTH)
        = map (\<lambda>k. (word_of_nat (k mod 64), word_of_nat (k div 64), 64)) [0..<G * 64]"
    unfolding TILE_WIDTH_def of_nat_numeral grid_threads_linear G_def ..
  have th: "sint (thread_index (word_of_nat (k mod 64)) (word_of_nat (k div 64)) 64) = int k
          \<and> (\<forall>m' ys. dev_mem m' a = Some ys \<and> length ys = N \<longrightarrow>
                kernel_fill (to_device h) func
                  (word_of_nat (k mod 64), word_of_nat (k div 64), 64) m'
                = (if k < N
                   then Inr (m'\<lparr>dev_mem := (dev_mem m')(a \<mapsto> ys[k := func ()]),
                               dev_stores := dev_stores m' @ [(a, k)]\<rparr>)
                   else Inr m'))" if k: "k < G * 64" for k
  proof -
    from k GK have k31: "k < 2 ^ 31" by simp
    then have k32: "k < 2 ^ 32" by simp
    have 1: "sint (thread_index (word_of_nat (k mod 64)) (word_of_nat (k div 64)) 64) = int k"
      unfolding thread_index_linear by (rule sint_small [OF k31])
    have 2: "kernel_fill (to_device h) func
                  (word_of_nat (k mod 64), word_of_nat (k div 64), 64) m'
                = (if k < N
                   then Inr (m'\<lparr>dev_mem := (dev_mem m')(a \<mapsto> ys[k := func ()]),
                               dev_stores := dev_stores m' @ [(a, k)]\<rparr>)
                   else Inr m')"
      if "dev_mem m' a = Some ys \<and> length ys = N" for m' :: "'a machine" and ys
    proof -
      from that have d: "dev_mem m' a = Some ys" and ly: "unat (hsp_size h) \<le> length ys"
        by (simp_all add: N_def)
      from kernel_fill_thread [OF d k32 _ ly, of func] N63 k31 show ?thesis
        by (simp add: to_device_def a N_def)
    qed
    from 1 2 show ?thesis by blast
  qed
  have df: "device_fill val h m
        = Inr (h, m\<lparr>dev_mem := (dev_mem m)(a \<mapsto> replicate N val),
                    dev_stores := dev_stores m @ map (Pair a) [0..<N]\<rparr>)"
  proof -
    from ub have mn: "min (unat (hsp_size h)) (2 ^ 31) = N" by (simp add: N_def)
    from l have "length xs = N" by (simp add: N_def)
    note w = after_fill_whole [OF this, of m a val]
    from ub' have "unat (hsp_size h) + 63 \<le> 2 ^ 32" by (simp add: N_def)
    from device_fill_result [OF a x l pos this, of val]
    show ?thesis unfolding mn w .
  qed
  from G c1 c2 ts th df to_bench_is_fill show ?thesis
    unfolding G_def N_def by blast
qed

theorem launch_tiles_and_bounds_witness:
  "hsp_data unmirrored_handle = Some 0
   \<and> dev_mem unmirrored_machine 0 = Some [1, 2, 3, 4, 5, 6, 7, 8]
   \<and> unat (hsp_size unmirrored_handle) = 8
   \<and> unat (grid_dim (hsp_size unmirrored_handle)) = 1
   \<and> kernel_fill (to_device unmirrored_handle) (\<lambda>_. 42) (3, 0, 64) unmirrored_machine
       = Inr (unmirrored_machine
               \<lparr>dev_mem := [0 \<mapsto> [1, 2, 3, 42, 5, 6, 7, 8]], dev_stores := [(0, 3)]\<rparr>)
   \<and> kernel_fill (to_device unmirrored_handle) (\<lambda>_. 42) (8, 0, 64) unmirrored_machine
       = Inr unmirrored_machine
   \<and> device_fill 42 unmirrored_handle unmirrored_machine
       = Inr (unmirrored_handle,
              unmirrored_machine
               \<lparr>dev_mem := [0 \<mapsto> [42, 42, 42, 42, 42, 42, 42, 42]],
                dev_stores := [(0, 0), (0, 1), (0, 2), (0, 3), (0, 4), (0, 5), (0, 6), (0, 7)]\<rparr>)"
proof -
  have a: "hsp_data unmirrored_handle = Some 0"
    and x: "dev_mem unmirrored_machine 0 = Some [1, 2, 3, 4, 5, 6, 7, 8]"
    and n: "unat (hsp_size unmirrored_handle) = 8"
    and s: "dev_stores unmirrored_machine = []"
    by (simp_all add: unmirrored_handle_def unmirrored_machine_def init_machine_def)
  have l: "length [1, 2, 3, 4, 5, 6, 7, 8 :: c_int] = unat (hsp_size unmirrored_handle)"
    and pos: "0 < unat (hsp_size unmirrored_handle)"
    and ub: "unat (hsp_size unmirrored_handle) < 2 ^ 31"
    by (simp_all add: n)
  note T = launch_tiles_and_bounds [OF a x l pos ub, of "\<lambda>_. 42" 42, unfolded n]
  note c2 = conjunct2
  from T [THEN conjunct1] have g: "unat (grid_dim (hsp_size unmirrored_handle)) = 1" by simp
  note th = T [THEN c2, THEN c2, THEN c2, THEN c2, THEN conjunct1, unfolded g, rule_format]
  have ly: "dev_mem unmirrored_machine 0 = Some [1, 2, 3, 4, 5, 6, 7, 8]
      \<and> length [1, 2, 3, 4, 5, 6, 7, 8 :: c_int] = 8"
    using x by simp
  have "(3::nat) < 1 * 64" by simp
  from th [OF this, THEN c2, rule_format, OF ly] s
  have t3: "kernel_fill (to_device unmirrored_handle) (\<lambda>_. 42) (3, 0, 64) unmirrored_machine
       = Inr (unmirrored_machine
               \<lparr>dev_mem := [0 \<mapsto> [1, 2, 3, 42, 5, 6, 7, 8]], dev_stores := [(0, 3)]\<rparr>)"
    by (simp add: unmirrored_machine_def init_machine_def)
  have "(8::nat) < 1 * 64" by simp
  from th [OF this, THEN c2, rule_format, OF ly]
  have t8: "kernel_fill (to_device unmirrored_handle) (\<lambda>_. 42) (8, 0, 64) unmirrored_machine
       = Inr unmirrored_machine"
    by simp
  have up: "map (Pair (0::nat)) [0..<8]
      = [(0, 0), (0, 1), (0, 2), (0, 3), (0, 4), (0, 5), (0, 6), (0, 7)]"
    by (simp add: upt_conv_Cons)
  have rp: "replicate 8 (42 :: c_int) = [42, 42, 42, 42, 42, 42, 42, 42]"
    by (simp add: eval_nat_numeral)
  from T [THEN c2, THEN c2, THEN c2, THEN c2, THEN c2, THEN conjunct1]
  have df: "device_fill 42 unmirrored_handle unmirrored_machine
       = Inr (unmirrored_handle,
              unmirrored_machine
               \<lparr>dev_mem := [0 \<mapsto> [42, 42, 42, 42, 42, 42, 42, 42]],
                dev_stores := [(0, 0), (0, 1), (0, 2), (0, 3), (0, 4), (0, 5), (0, 6), (0, 7)]\<rparr>)"
    unfolding up rp s by (simp add: unmirrored_machine_def init_machine_def)
  from a x n g t3 t8 df show ?thesis by (intro conjI)
qed

text \<open>
  C7, as stated, fails on the buffer of \<open>2 ^ 31 + 1\<close> elements. The grid has
  \<open>2 ^ 25 + 1\<close> tiles, as claimed, and thread 0 of tile \<open>2 ^ 25\<close> is one of its threads. Its
  linear index \<open>2 ^ 31\<close> is less than \<open>N\<close>, but as an \<open>int\<close> it is \<open>- 2 ^ 31\<close>; the bounds
  check fails and the thread performs no access: the launch never stores element
  \<open>2 ^ 31\<close>, which keeps its old value.
\<close>

theorem launch_tiles_and_bounds_counterexample:
  "\<exists>h m. big_buffer = Inr (h, m)
   \<and> unat (hsp_size h) = 2 ^ 31 + 1
   \<and> unat (grid_dim (hsp_size h)) = 2 ^ 25 + 1
   \<and> (0, 2 ^ 25, 64) \<in> set (grid_threads (grid_dim (hsp_size h)) (word_of_nat TILE_WIDTH))
   \<and> unat (thread_index 0 (2 ^ 25) 64) = 2 ^ 31
   \<and> sint (thread_index 0 (2 ^ 25) 64) = - (2 ^ 31)
   \<and> \<not> in_bounds (thread_index 0 (2 ^ 25) 64) (to_device h)
   \<and> kernel_fill (to_device h) (\<lambda>_. 42) (0, 2 ^ 25, 64) m = Inr m
   \<and> (\<exists>m1 ds. device_fill 42 h m = Inr (h, m1)
         \<and> hsp_data h = Some 0 \<and> (0, 2 ^ 31) \<notin> set (dev_stores m1)
         \<and> dev_block m1 (hsp_data h) = Some ds \<and> ds ! (2 ^ 31) = 0)"
proof -
  have n: "unat (hsp_size big_handle) = 2 ^ 31 + 1"
    by (simp add: big_handle_def big_count_unat)
  have "unat (grid_dim (hsp_size big_handle)) = (unat (hsp_size big_handle) + 63) div 64"
    by (rule grid_dim_unat) (simp add: n)
  then have g: "unat (grid_dim (hsp_size big_handle)) = 2 ^ 25 + 1"
    by (simp add: n)
  have k: "(word_of_nat ((2 ^ 31) mod 64), word_of_nat ((2 ^ 31) div 64), 64)
      = (0 :: 32 word, 2 ^ 25 :: 32 word, 64 :: 32 word)"
    by simp
  have "(2 ^ 31 :: nat) \<in> set [0..<unat (grid_dim (hsp_size big_handle)) * 64]"
    by (simp add: g)
  from in_set_mapI [OF this,
      of "\<lambda>k. (word_of_nat (k mod 64) :: 32 word, word_of_nat (k div 64) :: 32 word, 64 :: 32 word)"]
  have "(word_of_nat ((2 ^ 31) mod 64), word_of_nat ((2 ^ 31) div 64), 64)
      \<in> set (grid_threads (grid_dim (hsp_size big_handle)) (word_of_nat TILE_WIDTH))"
    unfolding TILE_WIDTH_def of_nat_numeral grid_threads_linear .
  then have t: "(0, 2 ^ 25, 64)
      \<in> set (grid_threads (grid_dim (hsp_size big_handle)) (word_of_nat TILE_WIDTH))"
    unfolding k .
  have ti: "thread_index 0 (2 ^ 25) 64 = (word_of_nat (2 ^ 31) :: 32 word)"
    by (simp add: thread_index_def)
  have u: "unat (thread_index 0 (2 ^ 25) 64) = 2 ^ 31"
    by (simp add: thread_index_def)
  have "sint (word_of_nat (2 ^ 31) :: 32 word) = int (2 ^ 31) - 2 ^ 32"
    by (rule sint_big) simp_all
  then have s: "sint (thread_index 0 (2 ^ 25) 64) = - (2 ^ 31)"
    unfolding ti by simp
  have "\<not> in_bounds (word_of_nat (2 ^ 31)) \<lparr>buf_data = Some 0, buf_size = hsp_size big_handle\<rparr>"
    by (rule in_bounds_big) (simp_all add: n)
  then have ib: "\<not> in_bounds (thread_index 0 (2 ^ 25) 64) (to_device big_handle)"
    unfolding ti by (simp add: to_device_def big_handle_def)
  then have kf: "kernel_fill (to_device big_handle) (\<lambda>_. 42) (0, 2 ^ 25, 64) big_machine
      = Inr big_machine"
    by (simp add: kernel_fill_def Let_def)
  define xs :: "c_int list" where "xs = replicate (unat big_count) 0"
  have a: "hsp_data big_handle = Some 0" and x: "dev_mem big_machine 0 = Some xs"
    and l: "length xs = unat (hsp_size big_handle)"
    and st: "(0, 2 ^ 31) \<notin> set (dev_stores big_machine)"
    by (simp_all add: big_handle_def big_machine_def init_machine_def xs_def)
  have j: "2 ^ 31 < length xs" by (simp add: l n)
  have x0: "xs ! (2 ^ 31) = 0" unfolding xs_def by (rule nth_replicate) (simp add: big_count_unat)
  then have "xs ! (2 ^ 31) \<noteq> 42" by simp
  from partial_fill_differs(2) [OF j this] x0
  have d0: "(replicate (2 ^ 31) 42 @ drop (2 ^ 31) xs) ! (2 ^ 31) = 0" by (simp only:)
  define m1 where "m1 = after_fill big_machine 0 (2 ^ 31) 42 xs"
  have df: "device_fill 42 big_handle big_machine = Inr (big_handle, m1)"
    using device_fill_result [OF a x l big_bounds(1,2), of 42]
    unfolding big_bounds(3) m1_def .
  have ns: "(0, 2 ^ 31) \<notin> set (dev_stores m1)"
    unfolding m1_def using st by (rule after_fill_not_stored)
  have db: "dev_block m1 (hsp_data big_handle) = Some (replicate (2 ^ 31) 42 @ drop (2 ^ 31) xs)"
    unfolding m1_def by (simp add: dev_block_def a after_fill_fields)
  from big_buffer_eq n g t u s ib kf df a ns db d0 show ?thesis by (intro exI conjI)
qed

section \<open>Copies\<close>

text \<open>
  C4. The claim: \<open>copy()\<close> returns a new, independently owned buffer, with a fresh
  device allocation that holds a copy of the source's device contents and a fresh mirror
  when the source has one, so that a later \<open>host_fill(7)\<close> on the copy works on the copy's
  own mirror. The code at this input, a buffer of 3 elements with a mirror, on a run
  that does not elide the copy at \<open>return cp\<close>: the result is move-constructed from \<open>cp\<close>
  and has count 2, in its own field; \<open>cp\<close> keeps count 1 and its destructor frees the
  device allocation and the mirror just made. The handle returned points to two freed
  allocations: \<open>host_fill(7)\<close> on it is undefined behaviour and \<open>download()\<close> is
  terminated by the error check. On a run that elides the copy, the same call returns a
  handle of count 1 with both allocations live.
\<close>

theorem copy_unelided_return_dangles:
  "\<exists>cp m'. copy False mirrored_handle mirrored_machine = Inr (cp, m')
     \<and> hsp_counter cp = 2 \<and> hsp_size cp = 3
     \<and> hsp_data cp = Some 1 \<and> hsp_host_data cp = Some 1
     \<and> dev_block m' (hsp_data cp) = None \<and> host_block m' (hsp_host_data cp) = None
     \<and> dev_freed m' = [1] \<and> host_freed m' = [1]
     \<and> dev_block m' (hsp_data mirrored_handle) = Some [1, 2, 3]
     \<and> host_block m' (hsp_host_data mirrored_handle) = Some [4, 5, 6]
     \<and> host_fill 7 cp m' = Inl UndefinedBehaviour
     \<and> download cp m' = Inl (Terminated cudaErrorInvalidValue)
     \<and> (\<exists>cp1 m1. copy True mirrored_handle mirrored_machine = Inr (cp1, m1)
           \<and> hsp_counter cp1 = 1
           \<and> dev_block m1 (hsp_data cp1) = Some [1, 2, 3]
           \<and> host_block m1 (hsp_host_data cp1) = Some [4, 5, 6])"
  by (simp add: copy_def return_local_def move_construct_def destroy_def cudaFree_def
      delete_array_def construct_def device_allocate_def byte_count_def cudaMalloc_def
      cuda_safe_call_def default_handle_def Let_def cudaMemcpyDeviceToDevice_def
      read_range_def write_range_def host_allocate0_def host_allocate_def new_array_def
      std_copy_def mirrored_handle_def mirrored_machine_def init_machine_def dev_block_def
      host_block_def host_fill_def host_map_def std_transform_def download_def
      cudaMemcpyDeviceToHost_def)

text \<open>
  On a run that elides the copy at the return, for a valid buffer with the resources at
  hand, \<open>copy()\<close> returns a new handle: the same element count, a count of its own, a
  fresh device allocation that holds a copy of the source's device contents, a fresh host
  mirror with a copy of the source's mirror exactly when the source has one, and no
  allocation shared with the source, which is as before. Hence a \<open>host_fill\<close> on the copy
  leaves the mirror of the original as it is, and a \<open>host_fill\<close> on the original leaves
  the mirror of the copy as it is.
\<close>

lemma copy_elided_independent:
  assumes v: "valid_buffer this m" and f: "allocator_fresh m" and r: "copy_resources this m"
  shows "\<exists>cp m'. copy True this m = Inr (cp, m')
     \<and> hsp_size cp = hsp_size this \<and> hsp_counter cp = 1
     \<and> hsp_data cp \<noteq> hsp_data this \<and> dev_block m (hsp_data cp) = None
     \<and> dev_block m' (hsp_data cp) = dev_block m (hsp_data this)
     \<and> dev_block m' (hsp_data this) = dev_block m (hsp_data this)
     \<and> (hsp_host_data cp = None \<longleftrightarrow> hsp_host_data this = None)
     \<and> (hsp_host_data this \<noteq> None \<longrightarrow>
          hsp_host_data cp \<noteq> hsp_host_data this \<and> host_block m (hsp_host_data cp) = None)
     \<and> host_block m' (hsp_host_data cp) = host_block m (hsp_host_data this)
     \<and> host_block m' (hsp_host_data this) = host_block m (hsp_host_data this)
     \<and> (\<forall>val cp' m''. host_fill val cp m' = Inr (cp', m'') \<longrightarrow>
          host_block m'' (hsp_host_data this) = host_block m' (hsp_host_data this))
     \<and> (\<forall>val this' m''. host_fill val this m' = Inr (this', m'') \<longrightarrow>
          host_block m'' (hsp_host_data cp) = host_block m' (hsp_host_data cp))"
proof -
  from v obtain a xs where a: "hsp_data this = Some a" "dev_mem m a = Some xs"
    and lx: "length xs = unat (hsp_size this)"
    by (auto simp: valid_buffer_def dev_block_def split: option.splits)
  then have d: "dev_block m (hsp_data this) = Some xs" by (simp add: dev_block_def)
  from f a have na: "a \<noteq> dev_next m" and fd: "dev_mem m (dev_next m) = None"
    by (auto simp: allocator_fresh_def)
  note res = copy_result [OF v f r d]
  show ?thesis
  proof (cases "hsp_host_data this")
    case None
    define cp where "cp = \<lparr>hsp_data = Some (dev_next m), hsp_host_data = None,
                      hsp_size = hsp_size this, hsp_counter = 1\<rparr>"
    define m' where "m' = m\<lparr>dev_mem := (dev_mem m)(dev_next m \<mapsto> xs),
                      dev_avail := dev_avail m - unat (hsp_size this) * elem_bytes m,
                      dev_next := Suc (dev_next m)\<rparr>"
    from res None have c: "copy True this m = Inr (cp, m')" by (simp add: cp_def m'_def)
    have 1: "hsp_size cp = hsp_size this \<and> hsp_counter cp = 1
      \<and> hsp_data cp \<noteq> hsp_data this \<and> dev_block m (hsp_data cp) = None
      \<and> dev_block m' (hsp_data cp) = dev_block m (hsp_data this)
      \<and> dev_block m' (hsp_data this) = dev_block m (hsp_data this)"
      using a na fd by (simp add: cp_def m'_def dev_block_def)
    have 2: "hsp_host_data cp = None" by (simp add: cp_def)
    show ?thesis
      apply (rule exI [of _ cp], rule exI [of _ m'])
      using c 1 2 None by (simp add: host_block_def)
  next
    case (Some b)
    with v obtain ys where b: "host_mem m b = Some ys" and ly: "length ys = unat (hsp_size this)"
      by (auto simp: valid_buffer_def host_block_def)
    from f b have nb: "b \<noteq> host_next m" and fh: "host_mem m (host_next m) = None"
      by (auto simp: allocator_fresh_def)
    define cp where "cp = \<lparr>hsp_data = Some (dev_next m), hsp_host_data = Some (host_next m),
                      hsp_size = hsp_size this, hsp_counter = 1\<rparr>"
    define m' where "m' = m\<lparr>dev_mem := (dev_mem m)(dev_next m \<mapsto> xs),
                      dev_avail := dev_avail m - unat (hsp_size this) * elem_bytes m,
                      dev_next := Suc (dev_next m),
                      host_mem := (host_mem m)(host_next m \<mapsto> the (host_mem m b)),
                      host_avail := host_avail m - unat (hsp_size this) * elem_bytes m,
                      host_next := Suc (host_next m)\<rparr>"
    from res Some have c: "copy True this m = Inr (cp, m')" by (simp add: cp_def m'_def)
    have 1: "hsp_size cp = hsp_size this \<and> hsp_counter cp = 1
      \<and> hsp_data cp \<noteq> hsp_data this \<and> dev_block m (hsp_data cp) = None
      \<and> dev_block m' (hsp_data cp) = dev_block m (hsp_data this)
      \<and> dev_block m' (hsp_data this) = dev_block m (hsp_data this)"
      using a na fd by (simp add: cp_def m'_def dev_block_def)
    have 2: "hsp_host_data cp \<noteq> None \<and> hsp_host_data cp \<noteq> hsp_host_data this
      \<and> host_block m (hsp_host_data cp) = None
      \<and> host_block m' (hsp_host_data cp) = host_block m (hsp_host_data this)
      \<and> host_block m' (hsp_host_data this) = host_block m (hsp_host_data this)"
      using Some b nb fh by (simp add: cp_def m'_def host_block_def)
    have 3: "host_block m'' (hsp_host_data this) = host_block m' (hsp_host_data this)"
      if "host_fill val cp m' = Inr (cp', m'')" for val cp' m''
    proof -
      have "host_fill val cp m'
        = Inr (cp, m'\<lparr>host_mem := (host_mem m')(host_next m \<mapsto> map (\<lambda>arg. val) ys)\<rparr>)"
        unfolding host_fill_def
        by (rule host_map_present) (simp_all add: cp_def m'_def b ly)
      with that have "m'' = m'\<lparr>host_mem := (host_mem m')(host_next m \<mapsto> map (\<lambda>arg. val) ys)\<rparr>"
        by simp
      with Some nb show ?thesis by (simp add: host_block_def)
    qed
    have 4: "host_block m'' (hsp_host_data cp) = host_block m' (hsp_host_data cp)"
      if "host_fill val this m' = Inr (this', m'')" for val this' m''
    proof -
      have "host_fill val this m'
        = Inr (this, m'\<lparr>host_mem := (host_mem m')(b \<mapsto> map (\<lambda>arg. val) ys)\<rparr>)"
        unfolding host_fill_def
        by (rule host_map_present) (simp_all add: Some m'_def b ly nb)
      with that have "m'' = m'\<lparr>host_mem := (host_mem m')(b \<mapsto> map (\<lambda>arg. val) ys)\<rparr>"
        by simp
      with nb show ?thesis by (simp add: host_block_def cp_def)
    qed
    have 5: "\<forall>val cp' m''. host_fill val cp m' = Inr (cp', m'') \<longrightarrow>
          host_block m'' (hsp_host_data this) = host_block m' (hsp_host_data this)"
      using 3 by blast
    have 6: "\<forall>val this' m''. host_fill val this m' = Inr (this', m'') \<longrightarrow>
          host_block m'' (hsp_host_data cp) = host_block m' (hsp_host_data cp)"
      using 4 by blast
    show ?thesis
      apply (rule exI [of _ cp], rule exI [of _ m'])
      using c 1 2 5 6 Some by simp
  qed
qed

lemma copy_elided_example:
  "valid_buffer mirrored_handle mirrored_machine \<and> allocator_fresh mirrored_machine
   \<and> copy_resources mirrored_handle mirrored_machine
   \<and> (\<exists>cp m'. copy True mirrored_handle mirrored_machine = Inr (cp, m')
        \<and> hsp_size cp = 3 \<and> hsp_counter cp = 1
        \<and> hsp_data cp \<noteq> Some 0 \<and> dev_block m' (hsp_data cp) = Some [1, 2, 3]
        \<and> dev_block m' (Some 0) = Some [1, 2, 3]
        \<and> hsp_host_data cp \<noteq> None \<and> hsp_host_data cp \<noteq> Some 0
        \<and> host_block m' (hsp_host_data cp) = Some [4, 5, 6]
        \<and> host_block m' (Some 0) = Some [4, 5, 6])"
proof -
  have v: "valid_buffer mirrored_handle mirrored_machine"
    by (simp add: valid_buffer_def mirrored_handle_def mirrored_machine_def
        init_machine_def dev_block_def host_block_def)
  have f: "allocator_fresh mirrored_machine"
    by (simp add: allocator_fresh_def mirrored_machine_def init_machine_def)
  have r: "copy_resources mirrored_handle mirrored_machine"
    by (simp add: copy_resources_def mirrored_handle_def mirrored_machine_def init_machine_def)
  have d: "dev_block mirrored_machine (Some 0) = Some [1, 2, 3]"
    and h: "host_block mirrored_machine (Some 0) = Some [4, 5, 6]"
    and p: "hsp_data mirrored_handle = Some 0" "hsp_host_data mirrored_handle = Some 0"
      "hsp_size mirrored_handle = 3"
    by (simp_all add: mirrored_handle_def mirrored_machine_def init_machine_def
        dev_block_def host_block_def)
  show ?thesis
    using copy_elided_independent [OF v f r] v f r by (auto simp: d h p)
qed

end
